theory Spec2Isabelle
  imports Complex_Main "HOL-Library.Sublist"
begin

section \<open>Shared schema (shared/schema.ts)\<close>

text \<open>
  The enumerations of the schema become datatypes. Identifiers (UUID strings), file
  names and paths are \<open>string\<close>. Timestamps, ISO strings in the source, are the
  epoch milliseconds they denote (\<open>int\<close>). Counts and sizes are \<open>nat\<close>, chunk
  indices are \<open>int\<close> (the route parses them with \<open>parseInt\<close>). JavaScript
  numbers that carry a percentage are exact rationals; the two results of a division
  by zero are kept as values of their own.
\<close>

datatype VideoStatus =
  UPLOADING | UPLOAD_COMPLETED | QUEUED | TRANSCODING | COMPLETED | FAILED

datatype Resolution = R360P | R720P | R1080P

datatype SessionStatus = SessionActive | SessionCompleted | SessionExpired

datatype JobStatus = JobPending | JobProcessing | JobCompleted | JobFailed

datatype EventType =
  EV_UPLOAD_COMPLETED | EV_TRANSCODING_STARTED | EV_TRANSCODING_PROGRESS
  | EV_TRANSCODING_COMPLETED | EV_TRANSCODING_FAILED

datatype jsnum = Num rat | Infinity | NaN

text \<open>\<open>(a / b) * 100\<close> on two non-negative integers, as JavaScript computes it.\<close>

definition percent_of :: "nat \<Rightarrow> nat \<Rightarrow> jsnum" where
  "percent_of a b =
     (if b = 0 then (if a = 0 then NaN else Infinity)
      else Num (rat_of_nat a / rat_of_nat b * 100))"

fun resolution_name :: "Resolution \<Rightarrow> string" where
  "resolution_name R360P = ''360p''"
| "resolution_name R720P = ''720p''"
| "resolution_name R1080P = ''1080p''"

definition allResolutions :: "Resolution list" where
  "allResolutions = [R360P, R720P, R1080P]"

record Video =
  id_v :: string
  filename_v :: string
  originalSize :: nat
  mimeType :: string
  status_v :: VideoStatus
  uploadProgress :: jsnum
  transcodingProgress :: "(Resolution \<rightharpoonup> rat) option"
  hlsUrls :: "(Resolution \<rightharpoonup> string) option"
  errorMessage_v :: "string option"
  createdAt_v :: int
  completedAt_v :: "int option"

record UploadSession =
  id_s :: string
  videoId_s :: string
  filename_s :: string
  totalSize :: nat
  chunkSize :: nat
  totalChunks :: nat
  uploadedChunks :: "int list"
  status_s :: SessionStatus
  createdAt_s :: int
  expiresAt :: int

record TranscodingJob =
  id_j :: string
  videoId_j :: string
  resolution :: Resolution
  status_j :: JobStatus
  progress :: rat
  inputPath :: string
  outputPath :: "string option"
  errorMessage_j :: "string option"
  createdAt_j :: int
  startedAt :: "int option"
  completedAt_j :: "int option"

section \<open>State store (MemStorage)\<close>

text \<open>
  The three JavaScript maps of \<open>MemStorage\<close>. Every method is \<open>async\<close> but
  contains no \<open>await\<close>: its body runs in one piece, so each method is a function
  from the store to a result and the store after it. \<open>randomUUID()\<close> and
  \<open>new Date()\<close> are inputs of the model (\<open>newId\<close>, \<open>now\<close>).
\<close>

record MemStorage =
  videos :: "string \<rightharpoonup> Video"
  uploadSessions :: "string \<rightharpoonup> UploadSession"
  transcodingJobs :: "string \<rightharpoonup> TranscodingJob"

definition emptyStorage :: MemStorage where
  "emptyStorage = \<lparr> videos = Map.empty, uploadSessions = Map.empty, transcodingJobs = Map.empty \<rparr>"

text \<open>
  A \<open>Partial<T>\<close> update descriptor is the list of the keys its object literal
  carries, in order; the spread \<open>{...record, ...updates}\<close> assigns them one by
  one. A key can carry \<open>undefined\<close> (\<open>completedAt\<close> below), which overwrites.
\<close>

datatype VideoUpdate =
  SetStatusV VideoStatus
  | SetUploadProgress jsnum
  | SetTranscodingProgress "Resolution \<rightharpoonup> rat"
  | SetHlsUrls "Resolution \<rightharpoonup> string"
  | SetErrorMessageV string
  | SetCompletedAtV "int option"

fun applyVideoUpdate :: "Video \<Rightarrow> VideoUpdate \<Rightarrow> Video" where
  "applyVideoUpdate v (SetStatusV s) = v\<lparr>status_v := s\<rparr>"
| "applyVideoUpdate v (SetUploadProgress p) = v\<lparr>uploadProgress := p\<rparr>"
| "applyVideoUpdate v (SetTranscodingProgress m) = v\<lparr>transcodingProgress := Some m\<rparr>"
| "applyVideoUpdate v (SetHlsUrls m) = v\<lparr>hlsUrls := Some m\<rparr>"
| "applyVideoUpdate v (SetErrorMessageV e) = v\<lparr>errorMessage_v := Some e\<rparr>"
| "applyVideoUpdate v (SetCompletedAtV t) = v\<lparr>completedAt_v := t\<rparr>"

datatype SessionUpdate =
  SetStatusS SessionStatus
  | SetUploadedChunks "int list"
  | SetTotalChunks nat
  | SetExpiresAt int

fun applySessionUpdate :: "UploadSession \<Rightarrow> SessionUpdate \<Rightarrow> UploadSession" where
  "applySessionUpdate s (SetStatusS x) = s\<lparr>status_s := x\<rparr>"
| "applySessionUpdate s (SetUploadedChunks cs) = s\<lparr>uploadedChunks := cs\<rparr>"
| "applySessionUpdate s (SetTotalChunks n) = s\<lparr>totalChunks := n\<rparr>"
| "applySessionUpdate s (SetExpiresAt t) = s\<lparr>expiresAt := t\<rparr>"

datatype JobUpdate =
  SetStatusJ JobStatus
  | SetProgress rat
  | SetOutputPath string
  | SetStartedAt int
  | SetCompletedAtJ int

fun applyJobUpdate :: "TranscodingJob \<Rightarrow> JobUpdate \<Rightarrow> TranscodingJob" where
  "applyJobUpdate j (SetStatusJ s) = j\<lparr>status_j := s\<rparr>"
| "applyJobUpdate j (SetProgress p) = j\<lparr>progress := p\<rparr>"
| "applyJobUpdate j (SetOutputPath p) = j\<lparr>outputPath := Some p\<rparr>"
| "applyJobUpdate j (SetStartedAt t) = j\<lparr>startedAt := Some t\<rparr>"
| "applyJobUpdate j (SetCompletedAtJ t) = j\<lparr>completedAt_j := Some t\<rparr>"

definition createVideo ::
  "MemStorage \<Rightarrow> string \<Rightarrow> int \<Rightarrow> string \<Rightarrow> nat \<Rightarrow> string \<Rightarrow> Video \<times> MemStorage" where
  "createVideo st newId now filename size' mime =
     (let video = \<lparr> id_v = newId, filename_v = filename, originalSize = size',
                     mimeType = mime, status_v = UPLOADING, uploadProgress = Num 0,
                     transcodingProgress = None, hlsUrls = None, errorMessage_v = None,
                     createdAt_v = now, completedAt_v = None \<rparr>
      in (video, st\<lparr>videos := (videos st)(newId \<mapsto> video)\<rparr>))"

definition getVideo :: "MemStorage \<Rightarrow> string \<Rightarrow> Video option" where
  "getVideo st i = videos st i"

definition updateVideo ::
  "MemStorage \<Rightarrow> string \<Rightarrow> VideoUpdate list \<Rightarrow> Video option \<times> MemStorage" where
  "updateVideo st i updates =
     (case videos st i of
        None \<Rightarrow> (None, st)
      | Some video \<Rightarrow>
          (let updated = foldl applyVideoUpdate video updates
           in (Some updated, st\<lparr>videos := (videos st)(i \<mapsto> updated)\<rparr>)))"

definition deleteVideo :: "MemStorage \<Rightarrow> string \<Rightarrow> bool \<times> MemStorage" where
  "deleteVideo st i =
     (case videos st i of
        None \<Rightarrow> (False, st)
      | Some _ \<Rightarrow> (True, st\<lparr>videos := (videos st)(i := None)\<rparr>))"

text \<open>
  \<open>Math.ceil(totalSize / chunkSize)\<close>: the only caller passes the positive constant
  \<open>CHUNK_SIZE\<close>. With \<open>chunkSize = 0\<close> JavaScript yields \<open>Infinity\<close> or
  \<open>NaN\<close>, which a \<open>nat\<close> cannot hold; nothing below uses that case.
\<close>

definition ceil_div :: "nat \<Rightarrow> nat \<Rightarrow> nat" where
  "ceil_div a b = (a + b - 1) div b"

definition createUploadSession ::
  "MemStorage \<Rightarrow> string \<Rightarrow> int \<Rightarrow> string \<Rightarrow> string \<Rightarrow> nat \<Rightarrow> nat
     \<Rightarrow> UploadSession \<times> MemStorage" where
  "createUploadSession st newId now vid filename tsize csize =
     (let session = \<lparr> id_s = newId, videoId_s = vid, filename_s = filename,
                       totalSize = tsize, chunkSize = csize,
                       totalChunks = ceil_div tsize csize, uploadedChunks = [],
                       status_s = SessionActive, createdAt_s = now,
                       expiresAt = now + 24 * 60 * 60 * 1000 \<rparr>
      in (session, st\<lparr>uploadSessions := (uploadSessions st)(newId \<mapsto> session)\<rparr>))"

definition getUploadSession :: "MemStorage \<Rightarrow> string \<Rightarrow> UploadSession option" where
  "getUploadSession st i = uploadSessions st i"

definition updateUploadSession ::
  "MemStorage \<Rightarrow> string \<Rightarrow> SessionUpdate list \<Rightarrow> UploadSession option \<times> MemStorage" where
  "updateUploadSession st i updates =
     (case uploadSessions st i of
        None \<Rightarrow> (None, st)
      | Some session \<Rightarrow>
          (let updated = foldl applySessionUpdate session updates
           in (Some updated, st\<lparr>uploadSessions := (uploadSessions st)(i \<mapsto> updated)\<rparr>)))"

text \<open>
  \<open>markChunkUploaded\<close>: \<open>includes\<close>, then \<open>push\<close> and the numeric
  \<open>sort((a, b) => a - b)\<close> only for a new index; the session is written back and the
  owning video, when the store has it, gets the recomputed \<open>uploadProgress\<close>.
\<close>

definition markChunkUploaded ::
  "MemStorage \<Rightarrow> string \<Rightarrow> int \<Rightarrow> UploadSession option \<times> MemStorage" where
  "markChunkUploaded st sessionId chunkIndex =
     (case uploadSessions st sessionId of
        None \<Rightarrow> (None, st)
      | Some session \<Rightarrow>
          (let session' =
                 (if chunkIndex \<in> set (uploadedChunks session) then session
                  else session\<lparr>uploadedChunks := sort (uploadedChunks session @ [chunkIndex])\<rparr>);
               st1 = st\<lparr>uploadSessions := (uploadSessions st)(sessionId \<mapsto> session')\<rparr>;
               st2 =
                 (case videos st1 (videoId_s session') of
                    None \<Rightarrow> st1
                  | Some video \<Rightarrow>
                      st1\<lparr>videos := (videos st1)(videoId_s session' \<mapsto>
                         video\<lparr>uploadProgress :=
                           percent_of (length (uploadedChunks session')) (totalChunks session')\<rparr>)\<rparr>)
           in (Some session', st2)))"

definition createTranscodingJob ::
  "MemStorage \<Rightarrow> string \<Rightarrow> int \<Rightarrow> string \<Rightarrow> Resolution \<Rightarrow> string
     \<Rightarrow> TranscodingJob \<times> MemStorage" where
  "createTranscodingJob st newId now vid res inp =
     (let job = \<lparr> id_j = newId, videoId_j = vid, resolution = res, status_j = JobPending,
                   progress = 0, inputPath = inp, outputPath = None, errorMessage_j = None,
                   createdAt_j = now, startedAt = None, completedAt_j = None \<rparr>
      in (job, st\<lparr>transcodingJobs := (transcodingJobs st)(newId \<mapsto> job)\<rparr>))"

definition updateTranscodingJob ::
  "MemStorage \<Rightarrow> string \<Rightarrow> JobUpdate list \<Rightarrow> TranscodingJob option \<times> MemStorage" where
  "updateTranscodingJob st i updates =
     (case transcodingJobs st i of
        None \<Rightarrow> (None, st)
      | Some job \<Rightarrow>
          (let updated = foldl applyJobUpdate job updates
           in (Some updated, st\<lparr>transcodingJobs := (transcodingJobs st)(i \<mapsto> updated)\<rparr>)))"

text \<open>A sequence of \<open>markChunkUploaded\<close> calls, each on the store the last one left.\<close>

fun markChunks :: "MemStorage \<Rightarrow> (string \<times> int) list \<Rightarrow> MemStorage" where
  "markChunks st [] = st"
| "markChunks st ((sid, idx) # calls) = markChunks (snd (markChunkUploaded st sid idx)) calls"


section \<open>Filesystem and request model\<close>

text \<open>
  The storage tree is a map from paths to nodes; a path names a node by the string
  \<open>path.join\<close> returns for it, relative to the working directory. A path with a
  trailing separator is looked up as it is written, not resolved to the directory it
  names. The directories \<open>chunks\<close>, \<open>uploads\<close> and \<open>transcoded\<close> are created
  when the module is loaded.
\<close>

datatype fnode = FileNode string | DirNode

type_synonym fsys = "string \<rightharpoonup> fnode"

text \<open>
  \<open>path.join\<close> of Node, POSIX flavour. The non-empty arguments are joined with a
  separator and the result is normalised: the path is cut at its separators; empty
  segments and \<open>.\<close> segments are dropped; a \<open>..\<close> segment removes the segment before
  it, unless there is none or it is \<open>..\<close> itself, in which case \<open>..\<close> is kept for a
  relative path and dropped for an absolute one. A leading separator and one trailing
  separator are kept; an empty result is \<open>.\<close> (\<open>/\<close> when absolute, \<open>./\<close> with a
  trailing separator).
\<close>

fun segments :: "string \<Rightarrow> string list" where
  "segments [] = [[]]"
| "segments (c # cs) =
     (let ss = segments cs in if c = CHR ''/'' then [] # ss else (c # hd ss) # tl ss)"

text \<open>\<open>normalizeString\<close>; \<open>res\<close> holds the segments kept so far, the last one first.\<close>

fun normalizeString :: "bool \<Rightarrow> string list \<Rightarrow> string list \<Rightarrow> string list" where
  "normalizeString allowAboveRoot res [] = rev res"
| "normalizeString allowAboveRoot res (s # ss) =
     (if s = [] \<or> s = ''.'' then normalizeString allowAboveRoot res ss
      else if s = ''..'' then
        (if res \<noteq> [] \<and> hd res \<noteq> ''..'' then normalizeString allowAboveRoot (tl res) ss
         else if allowAboveRoot then normalizeString allowAboveRoot (''..'' # res) ss
         else normalizeString allowAboveRoot res ss)
      else normalizeString allowAboveRoot (s # res) ss)"

fun join_segments :: "string list \<Rightarrow> string" where
  "join_segments [] = []"
| "join_segments [s] = s"
| "join_segments (s # t # ts) = s @ ''/'' @ join_segments (t # ts)"

definition normalize_path :: "string \<Rightarrow> string" where
  "normalize_path p =
     (if p = [] then ''.''
      else
        (let isAbsolute = (hd p = CHR ''/'');
             trailingSeparator = (last p = CHR ''/'');
             q = join_segments (normalizeString (\<not> isAbsolute) [] (segments p))
         in if q = [] then (if isAbsolute then ''/'' else if trailingSeparator then ''./'' else ''.'')
            else (if isAbsolute then ''/'' else []) @ q @ (if trailingSeparator then ''/'' else [])))"

definition path_join :: "string \<Rightarrow> string \<Rightarrow> string" where
  "path_join a b =
     (if a = [] \<and> b = [] then ''.''
      else if a = [] then normalize_path b
      else if b = [] then normalize_path a
      else normalize_path (a @ ''/'' @ b))"

text \<open>
  A name that is one path segment: not empty, without a separator, and neither \<open>.\<close>
  nor \<open>..\<close>. Joined to a directory it names an entry of that directory.
\<close>

definition plain_name :: "string \<Rightarrow> bool" where
  "plain_name s = (s \<noteq> [] \<and> CHR ''/'' \<notin> set s \<and> s \<noteq> ''.'' \<and> s \<noteq> ''..'')"

definition CHUNKS_DIR :: string where "CHUNKS_DIR = ''storage/chunks''"
definition UPLOADS_DIR :: string where "UPLOADS_DIR = ''storage/uploads''"
definition TRANSCODED_DIR :: string where "TRANSCODED_DIR = ''storage/transcoded''"

definition existsSync :: "fsys \<Rightarrow> string \<Rightarrow> bool" where
  "existsSync fs p = (fs p \<noteq> None)"

text \<open>\<open>statSync(p).size\<close> of an existing node; a directory reports a non-zero size.\<close>

fun node_size :: "fnode \<Rightarrow> nat" where
  "node_size (FileNode c) = length c"
| "node_size DirNode = 4096"

text \<open>\<open>fs.unlink(p)\<close>: \<open>None\<close> is the rejection (no such file, or a directory).\<close>

definition unlink :: "fsys \<Rightarrow> string \<Rightarrow> fsys option" where
  "unlink fs p = (case fs p of Some (FileNode _) \<Rightarrow> Some (fs(p := None)) | _ \<Rightarrow> None)"

text \<open>\<open>fs.unlink(p).catch(() => {})\<close>\<close>

definition unlink_quiet :: "fsys \<Rightarrow> string \<Rightarrow> fsys" where
  "unlink_quiet fs p = (case unlink fs p of Some fs' \<Rightarrow> fs' | None \<Rightarrow> fs)"

definition under :: "string \<Rightarrow> string \<Rightarrow> bool" where
  "under d p = (p = d \<or> prefix (d @ ''/'') p)"

text \<open>\<open>fs.rm(d, { recursive: true, force: true })\<close>: the node and all below it.\<close>

definition rm_rf :: "fsys \<Rightarrow> string \<Rightarrow> fsys" where
  "rm_rf fs d = (\<lambda>p. if under d p then None else fs p)"

text \<open>
  \<open>fs.rename(src, dst)\<close> of a regular file into the directory \<open>parent\<close>:
  rejected when the source is missing, when the parent is not a directory, or when the
  target is a directory. The source of every rename of the program is the regular
  file multer wrote; a directory source counts as a rejection.
\<close>

definition rename :: "fsys \<Rightarrow> string \<Rightarrow> string \<Rightarrow> string \<Rightarrow> fsys option" where
  "rename fs src parent dst =
     (case fs src of
        Some (FileNode c) \<Rightarrow>
          (if fs parent \<noteq> Some DirNode \<or> fs dst = Some DirNode then None
           else Some ((fs(src := None))(dst \<mapsto> FileNode c)))
      | _ \<Rightarrow> None)"

subsection \<open>Decimal numerals and \<open>parseInt\<close>\<close>

definition digit_char :: "nat \<Rightarrow> char" where
  "digit_char d = ''0123456789'' ! d"

fun show_nat :: "nat \<Rightarrow> string" where
  "show_nat n = (if n < 10 then [digit_char n] else show_nat (n div 10) @ [digit_char (n mod 10)])"

declare show_nat.simps [simp del]

definition show_int :: "int \<Rightarrow> string" where
  "show_int i = (if i < 0 then CHR ''-'' # show_nat (nat (- i)) else show_nat (nat i))"

definition isWhiteSpace :: "char \<Rightarrow> bool" where
  "isWhiteSpace c = (of_char c \<in> {9, 10, 11, 12, 13, 32 :: nat})"

text \<open>The value of a character as a digit of the given radix (10 or 16).\<close>

definition digit_val :: "nat \<Rightarrow> char \<Rightarrow> nat option" where
  "digit_val radix c =
     (let n = (of_char c :: nat);
          v = (if 48 \<le> n \<and> n \<le> 57 then Some (n - 48)
               else if 97 \<le> n \<and> n \<le> 122 then Some (n - 87)
               else if 65 \<le> n \<and> n \<le> 90 then Some (n - 55)
               else None)
      in case v of None \<Rightarrow> None | Some d \<Rightarrow> (if d < radix then Some d else None))"

text \<open>
  ECMAScript \<open>parseInt(s)\<close> without a radix, on the ASCII strings of a form field:
  leading white space is skipped, a sign is read, a \<open>0x\<close> prefix selects radix 16,
  the longest run of digits is the numeral and what follows is ignored; no digit at
  all gives \<open>NaN\<close> (\<open>None\<close>). The integer is exact.
\<close>

definition parseInt :: "string \<Rightarrow> int option" where
  "parseInt str =
     (let s = dropWhile isWhiteSpace str;
          neg = (take 1 s = ''-'');
          s1 = (if take 1 s = ''+'' \<or> take 1 s = ''-'' then drop 1 s else s);
          hex = (take 2 s1 = ''0x'' \<or> take 2 s1 = ''0X'');
          radix = (if hex then 16 else 10);
          s2 = (if hex then drop 2 s1 else s1);
          z = takeWhile (\<lambda>c. digit_val radix c \<noteq> None) s2;
          n = foldl (\<lambda>a c. a * radix + the (digit_val radix c)) 0 z
      in if z = [] then None else Some (if neg then - int n else int n))"

subsection \<open>Responses\<close>

datatype json =
  JNull | JBool bool | JNum rat | JStr string | JArr "json list" | JObj "(string \<times> json) list"

text \<open>\<open>JSON.stringify\<close> writes \<open>NaN\<close> and \<open>Infinity\<close> as \<open>null\<close>.\<close>

fun json_of_jsnum :: "jsnum \<Rightarrow> json" where
  "json_of_jsnum (Num r) = JNum r"
| "json_of_jsnum Infinity = JNull"
| "json_of_jsnum NaN = JNull"

definition JNat :: "nat \<Rightarrow> json" where
  "JNat n = JNum (rat_of_nat n)"

record response =
  status :: nat
  body :: json

definition respond :: "nat \<Rightarrow> (string \<times> json) list \<Rightarrow> response" where
  "respond code kvs = \<lparr> status = code, body = JObj kvs \<rparr>"

text \<open>The value of a key of a response body, if the body has the key.\<close>

fun json_field :: "json \<Rightarrow> string \<Rightarrow> json option" where
  "json_field (JObj kvs) k = map_of kvs k"
| "json_field _ k = None"


section \<open>Upload coordinator (server/routes.ts)\<close>

subsection \<open>POST /api/upload/chunk\<close>

text \<open>
  The callback the route runs once the free-space check and multer have passed (their
  507, 413 and 500 responses are sent before and never reach it). The request is what
  multer parsed: the two text fields, when present, and the path of the temporary
  file it wrote, when a file part came. Every \<open>throw\<close> inside the \<open>try\<close> ends
  in the \<open>catch\<close>: the temporary file is removed and the response is 500.
\<close>

record chunk_request =
  req_sessionId :: "string option"
  req_chunkIndex :: "string option"
  req_file :: "string option"

definition upload_failed :: "MemStorage \<Rightarrow> fsys \<Rightarrow> string \<Rightarrow> response \<times> MemStorage \<times> fsys" where
  "upload_failed st fs tmp =
     (respond 500 [(''success'', JBool False), (''error'', JStr ''Failed to upload chunk'')],
      st, unlink_quiet fs tmp)"

definition post_upload_chunk ::
  "MemStorage \<Rightarrow> fsys \<Rightarrow> chunk_request \<Rightarrow> response \<times> MemStorage \<times> fsys" where
  "post_upload_chunk st fs req =
     (if req_sessionId req = None \<or> req_sessionId req = Some [] \<or> req_chunkIndex req = None
      then (respond 400 [(''success'', JBool False),
                         (''error'', JStr ''Missing sessionId or chunkIndex'')],
            st, (case req_file req of Some tmp \<Rightarrow> unlink_quiet fs tmp | None \<Rightarrow> fs))
      else
       (let sessionId = the (req_sessionId req); chunkIndex = the (req_chunkIndex req) in
        case req_file req of
          None \<Rightarrow>
            (respond 400 [(''success'', JBool False), (''error'', JStr ''No chunk data received'')],
             st, fs)
        | Some tmp \<Rightarrow>
           (case fs tmp of
              None \<Rightarrow> upload_failed st fs tmp
            | Some node \<Rightarrow>
               if node_size node = 0
               then (respond 400 [(''success'', JBool False),
                                  (''error'', JStr ''Empty chunk received'')],
                     st, unlink_quiet fs tmp)
               else
                (case getUploadSession st sessionId of
                   None \<Rightarrow>
                     (respond 404 [(''success'', JBool False), (''error'', JStr ''Session not found'')],
                      st, unlink_quiet fs tmp)
                 | Some existingSession \<Rightarrow>
                    (case parseInt chunkIndex of
                       None \<Rightarrow>
                         (respond 400 [(''success'', JBool False),
                                       (''error'', JStr (''Invalid chunk index: '' @ chunkIndex))],
                          st, unlink_quiet fs tmp)
                     | Some chunkIdx \<Rightarrow>
                        if chunkIdx < 0 \<or> chunkIdx \<ge> int (totalChunks existingSession)
                        then (respond 400 [(''success'', JBool False),
                                (''error'', JStr (''Invalid chunk index: '' @ chunkIndex))],
                              st, unlink_quiet fs tmp)
                        else
                         (let sessionDir = path_join CHUNKS_DIR sessionId;
                              fs1 = (if \<not> existsSync fs sessionDir then fs(sessionDir \<mapsto> DirNode)
                                     else fs);
                              finalPath = path_join sessionDir (''chunk_'' @ show_int chunkIdx)
                          in case rename fs1 tmp sessionDir finalPath of
                               None \<Rightarrow> upload_failed st fs1 tmp
                             | Some fs2 \<Rightarrow>
                                if \<not> existsSync fs2 finalPath
                                then (respond 500 [(''success'', JBool False),
                                                   (''error'', JStr ''Failed to save chunk'')],
                                      st, fs2)
                                else
                                 (case markChunkUploaded st sessionId chunkIdx of
                                    (None, st') \<Rightarrow>
                                      (respond 404 [(''success'', JBool False),
                                                    (''error'', JStr ''Session not found'')],
                                       st', fs2)
                                  | (Some session, st') \<Rightarrow>
                                      (respond 200
                                         [(''success'', JBool True),
                                          (''uploadedChunks'', JNat (length (uploadedChunks session))),
                                          (''totalChunks'', JNat (totalChunks session)),
                                          (''progress'', json_of_jsnum
                                             (percent_of (length (uploadedChunks session))
                                                (totalChunks session)))],
                                       st', fs2))))))))"

text \<open>The three validations the route names, on the request and the store.\<close>

definition body_nonempty :: "fsys \<Rightarrow> chunk_request \<Rightarrow> bool" where
  "body_nonempty fs req =
     (case req_file req of
        None \<Rightarrow> False
      | Some tmp \<Rightarrow> (case fs tmp of None \<Rightarrow> False | Some node \<Rightarrow> node_size node \<noteq> 0))"

definition session_exists :: "MemStorage \<Rightarrow> chunk_request \<Rightarrow> bool" where
  "session_exists st req =
     (case req_sessionId req of
        None \<Rightarrow> False
      | Some sid \<Rightarrow> sid \<noteq> [] \<and> uploadSessions st sid \<noteq> None)"

definition index_valid :: "MemStorage \<Rightarrow> chunk_request \<Rightarrow> bool" where
  "index_valid st req =
     (case (req_sessionId req, req_chunkIndex req) of
        (Some sid, Some ci) \<Rightarrow>
          (case (uploadSessions st sid, parseInt ci) of
             (Some session, Some idx) \<Rightarrow> 0 \<le> idx \<and> idx < int (totalChunks session)
           | _ \<Rightarrow> False)
      | _ \<Rightarrow> False)"

definition fields_present :: "chunk_request \<Rightarrow> bool" where
  "fields_present req =
     (req_sessionId req \<noteq> None \<and> req_sessionId req \<noteq> Some [] \<and> req_chunkIndex req \<noteq> None)"

text \<open>No file part came, or the file multer wrote has size 0.\<close>

definition body_empty :: "fsys \<Rightarrow> chunk_request \<Rightarrow> bool" where
  "body_empty fs req =
     (case req_file req of
        None \<Rightarrow> True
      | Some tmp \<Rightarrow> (case fs tmp of None \<Rightarrow> False | Some node \<Rightarrow> node_size node = 0))"

text \<open>
  A repeated upload of a chunk the session already has: the request is well formed, its
  body is not empty, its index is among \<open>uploadedChunks\<close> and in range, and the
  session directory is as the first upload left it.
\<close>

definition reupload_ready :: "MemStorage \<Rightarrow> fsys \<Rightarrow> chunk_request \<Rightarrow> bool" where
  "reupload_ready st fs req =
     (case (req_sessionId req, req_chunkIndex req, req_file req) of
        (Some sid, Some ci, Some tmp) \<Rightarrow>
          (case (uploadSessions st sid, parseInt ci, fs tmp) of
             (Some s, Some idx, Some (FileNode content)) \<Rightarrow>
               sid \<noteq> [] \<and> content \<noteq> [] \<and> idx \<in> set (uploadedChunks s)
               \<and> 0 \<le> idx \<and> idx < int (totalChunks s)
               \<and> fs (path_join CHUNKS_DIR sid) = Some DirNode
               \<and> fs (path_join (path_join CHUNKS_DIR sid) (''chunk_'' @ show_int idx)) \<noteq> Some DirNode
           | _ \<Rightarrow> False)
      | _ \<Rightarrow> False)"

text \<open>Every session of the store has its received indices in strictly ascending order.\<close>

definition chunks_ascending :: "MemStorage \<Rightarrow> bool" where
  "chunks_ascending st =
     (\<forall>sid s. uploadSessions st sid = Some s \<longrightarrow> sorted_wrt (<) (uploadedChunks s))"

text \<open>An update descriptor that carries no \<open>uploadedChunks\<close> array out of order.\<close>

definition keeps_ascending :: "SessionUpdate list \<Rightarrow> bool" where
  "keeps_ascending updates =
     (\<forall>u \<in> set updates. case u of SetUploadedChunks cs \<Rightarrow> sorted_wrt (<) cs | _ \<Rightarrow> True)"

subsection \<open>Events and job descriptors (server/queue.ts)\<close>

record VideoEvent =
  ev_type :: EventType
  ev_videoId :: string
  ev_data :: "(string \<times> json) list"
  ev_timestamp :: int

record TranscodingJobData =
  jd_videoId :: string
  jd_jobId :: string
  jd_resolution :: Resolution
  jd_inputPath :: string
  jd_outputDir :: string

text \<open>The event object \<open>emitEvent(type, videoId, data)\<close> builds.\<close>

definition mk_event :: "EventType \<Rightarrow> string \<Rightarrow> (string \<times> json) list \<Rightarrow> int \<Rightarrow> VideoEvent" where
  "mk_event t vid d now = \<lparr> ev_type = t, ev_videoId = vid, ev_data = d, ev_timestamp = now \<rparr>"

definition job_priority :: "Resolution \<Rightarrow> nat" where
  "job_priority r = (if r = R360P then 1 else if r = R720P then 2 else 3)"

text \<open>
  \<open>addTranscodingJobs\<close>. With a queue, each job is added with its priority. Without
  one, \<open>simulateTranscoding\<close> is called on each job: a call runs up to its first
  \<open>await\<close>, whose operand \<open>storage.updateVideo(videoId, {status: TRANSCODING})\<close>
  has then already run; the rest of each call runs later, as worker steps. Then the
  \<open>TRANSCODING_STARTED\<close> event is emitted.
\<close>

record jobs_added =
  ja_store :: MemStorage
  ja_queued :: "(TranscodingJobData \<times> nat) list"
  ja_started :: "TranscodingJobData list"
  ja_events :: "VideoEvent list"

definition addTranscodingJobs ::
  "bool \<Rightarrow> MemStorage \<Rightarrow> int \<Rightarrow> string \<Rightarrow> string \<Rightarrow> string \<Rightarrow> (Resolution \<Rightarrow> string)
     \<Rightarrow> jobs_added" where
  "addTranscodingJobs queue st now vid inp outDir jobIds =
     (let jobs = map (\<lambda>r. \<lparr> jd_videoId = vid, jd_jobId = jobIds r, jd_resolution = r,
                               jd_inputPath = inp, jd_outputDir = outDir \<rparr>) allResolutions;
          started = mk_event EV_TRANSCODING_STARTED vid
                      [(''resolutions'', JArr (map (JStr \<circ> resolution_name) allResolutions))] now
      in if queue
         then \<lparr> ja_store = st, ja_queued = map (\<lambda>jd. (jd, job_priority (jd_resolution jd))) jobs,
                ja_started = [], ja_events = [started] \<rparr>
         else \<lparr> ja_store = foldl (\<lambda>s jd. snd (updateVideo s (jd_videoId jd) [SetStatusV TRANSCODING]))
                             st jobs,
                ja_queued = [], ja_started = jobs, ja_events = [started] \<rparr>)"

subsection \<open>POST /api/upload/complete\<close>

text \<open>
  \<open>path.extname\<close>: from the last period of the last path segment, empty when there
  is none or when it is the first character of the segment.
\<close>

definition extname :: "string \<Rightarrow> string" where
  "extname p =
     (let base = rev (takeWhile (\<lambda>c. c \<noteq> CHR ''/'') (rev p));
          tail = rev (takeWhile (\<lambda>c. c \<noteq> CHR ''.'') (rev base))
      in if length tail = length base \<or> length tail + 1 = length base \<or> base = ''..''
         then [] else CHR ''.'' # tail)"

text \<open>The indices \<open>i < totalChunks\<close> whose file \<open>chunk_i\<close> is not on disk.\<close>

definition missing_chunks :: "fsys \<Rightarrow> string \<Rightarrow> nat \<Rightarrow> nat list" where
  "missing_chunks fs dir n =
     filter (\<lambda>i. \<not> existsSync fs (path_join dir (''chunk_'' @ show_nat i))) [0..<n]"

text \<open>
  The reassembly loop: the chunks are read in index order and written to the output.
  \<open>None\<close> is a read error (the path is a directory), which ends the loop.
\<close>

fun stream_chunks :: "fsys \<Rightarrow> string \<Rightarrow> nat list \<Rightarrow> string option" where
  "stream_chunks fs dir [] = Some []"
| "stream_chunks fs dir (i # rest) =
     (case fs (path_join dir (''chunk_'' @ show_nat i)) of
        Some (FileNode c) \<Rightarrow>
          (case stream_chunks fs dir rest of Some d \<Rightarrow> Some (c @ d) | None \<Rightarrow> None)
      | _ \<Rightarrow> None)"

text \<open>
  The loop over the three resolutions: the output directory of each is made when
  missing (\<open>mkdirSync\<close> throws when its parent is not a directory: \<open>False\<close>), and
  its job record is created.
\<close>

fun create_jobs ::
  "MemStorage \<Rightarrow> fsys \<Rightarrow> int \<Rightarrow> (Resolution \<Rightarrow> string) \<Rightarrow> string \<Rightarrow> string \<Rightarrow> string
     \<Rightarrow> Resolution list \<Rightarrow> bool \<times> MemStorage \<times> fsys" where
  "create_jobs st fs now jobIds vid outPath videoOutputDir [] = (True, st, fs)"
| "create_jobs st fs now jobIds vid outPath videoOutputDir (r # rs) =
     (let resDir = path_join videoOutputDir (resolution_name r) in
      if \<not> existsSync fs resDir \<and> fs videoOutputDir \<noteq> Some DirNode then (False, st, fs)
      else create_jobs (snd (createTranscodingJob st (jobIds r) now vid r outPath))
             (if \<not> existsSync fs resDir then fs(resDir \<mapsto> DirNode) else fs)
             now jobIds vid outPath videoOutputDir rs)"

record complete_result =
  cr_response :: response
  cr_store :: MemStorage
  cr_fs :: fsys
  cr_events :: "VideoEvent list"
  cr_queued :: "(TranscodingJobData \<times> nat) list"
  cr_started :: "TranscodingJobData list"

definition complete_early :: "response \<Rightarrow> MemStorage \<Rightarrow> fsys \<Rightarrow> VideoEvent list \<Rightarrow> complete_result" where
  "complete_early r st fs evs =
     \<lparr> cr_response = r, cr_store = st, cr_fs = fs, cr_events = evs, cr_queued = [], cr_started = [] \<rparr>"

definition complete_failed :: response where
  "complete_failed = respond 500 [(''error'', JStr ''Failed to complete upload'')]"

text \<open>
  The handler. \<open>queue\<close> tells whether the Redis queue is there, \<open>jobIds\<close> gives the
  identifiers \<open>randomUUID()\<close> draws for the three jobs. The write stream is taken to
  open; a read error removes the partial output and ends in the outer \<open>catch\<close>.
\<close>

definition post_upload_complete ::
  "bool \<Rightarrow> int \<Rightarrow> (Resolution \<Rightarrow> string) \<Rightarrow> MemStorage \<Rightarrow> fsys \<Rightarrow> string option
     \<Rightarrow> complete_result" where
  "post_upload_complete queue now jobIds st fs sessionId =
     (case (case sessionId of None \<Rightarrow> None | Some sid \<Rightarrow> getUploadSession st sid) of
        None \<Rightarrow> complete_early (respond 404 [(''error'', JStr ''Session not found'')]) st fs []
      | Some session \<Rightarrow>
         if length (uploadedChunks session) \<noteq> totalChunks session
         then complete_early
                (respond 400 [(''error'', JStr ''Upload incomplete''),
                              (''uploaded'', JNat (length (uploadedChunks session))),
                              (''total'', JNat (totalChunks session))]) st fs []
         else
          (let sid = the sessionId;
               vid = videoId_s session;
               outputPath = path_join UPLOADS_DIR (vid @ extname (filename_s session));
               sessionChunksDir = path_join CHUNKS_DIR sid;
               missingChunks = missing_chunks fs sessionChunksDir (totalChunks session)
           in if missingChunks \<noteq> []
              then complete_early
                     (respond 400 [(''error'', JStr ''Missing chunk files''),
                                   (''missingChunks'', JArr (map JNat (take 10 missingChunks))),
                                   (''totalMissing'', JNat (length missingChunks))]) st fs []
              else
               (case stream_chunks fs sessionChunksDir [0..<totalChunks session] of
                  None \<Rightarrow> complete_early complete_failed st (unlink_quiet (fs(outputPath \<mapsto> FileNode [])) outputPath) []
                | Some content \<Rightarrow>
                   (let fs1 = rm_rf (fs(outputPath \<mapsto> FileNode content)) sessionChunksDir;
                        st1 = snd (updateUploadSession st sid [SetStatusS SessionCompleted]);
                        st2 = snd (updateVideo st1 vid
                                     [SetStatusV UPLOAD_COMPLETED, SetUploadProgress (Num 100)]);
                        uploaded = mk_event EV_UPLOAD_COMPLETED vid
                                     [(''filename'', JStr (filename_s session)),
                                      (''size'', JNat (totalSize session))] now;
                        videoOutputDir = path_join TRANSCODED_DIR vid;
                        fs2 = (if \<not> existsSync fs1 videoOutputDir then fs1(videoOutputDir \<mapsto> DirNode)
                               else fs1)
                    in case create_jobs st2 fs2 now jobIds vid outputPath videoOutputDir allResolutions of
                         (False, st3, fs3) \<Rightarrow> complete_early complete_failed st3 fs3 [uploaded]
                       | (True, st3, fs3) \<Rightarrow>
                          (let st4 = snd (updateVideo st3 vid
                                 [SetStatusV QUEUED,
                                  SetTranscodingProgress [R360P \<mapsto> 0, R720P \<mapsto> 0, R1080P \<mapsto> 0]]);
                               added = addTranscodingJobs queue st4 now vid outputPath videoOutputDir jobIds
                           in \<lparr> cr_response = respond 200
                                    [(''success'', JBool True), (''videoId'', JStr vid),
                                     (''message'', JStr ''Upload complete, transcoding started'')],
                                cr_store = ja_store added, cr_fs = fs3,
                                cr_events = uploaded # ja_events added,
                                cr_queued = ja_queued added, cr_started = ja_started added \<rparr>)))))"

section \<open>Storage cleanup (server/storage-cleanup.ts)\<close>

definition TEMP_FILE_MAX_AGE_MS :: int where "TEMP_FILE_MAX_AGE_MS = 5 * 60 * 1000"
definition ORPHAN_SESSION_MAX_AGE_MS :: int where "ORPHAN_SESSION_MAX_AGE_MS = 30 * 60 * 1000"

definition upload_extensions :: "string list" where
  "upload_extensions = [''.mp4'', ''.webm'', ''.mov'', ''.avi'', ''.mkv'']"

definition upload_path :: "string \<Rightarrow> string \<Rightarrow> string" where
  "upload_path videoId ext = path_join UPLOADS_DIR (videoId @ ext)"

text \<open>
  \<open>cleanupUploadFile\<close>: the loop returns at the first extension whose path exists.
  A rejected \<open>unlink\<close> is caught by the function's own \<open>catch\<close>, which returns
  \<open>false\<close>.
\<close>

fun cleanupUploadFile_loop :: "fsys \<Rightarrow> string \<Rightarrow> string list \<Rightarrow> bool \<times> fsys" where
  "cleanupUploadFile_loop fs videoId [] = (False, fs)"
| "cleanupUploadFile_loop fs videoId (ext # exts) =
     (if existsSync fs (upload_path videoId ext)
      then (case unlink fs (upload_path videoId ext) of
              Some fs' \<Rightarrow> (True, fs')
            | None \<Rightarrow> (False, fs))
      else cleanupUploadFile_loop fs videoId exts)"

definition cleanupUploadFile :: "fsys \<Rightarrow> string \<Rightarrow> bool \<times> fsys" where
  "cleanupUploadFile fs videoId = cleanupUploadFile_loop fs videoId upload_extensions"

definition cleanupTranscodedFiles :: "fsys \<Rightarrow> string \<Rightarrow> bool \<times> fsys" where
  "cleanupTranscodedFiles fs videoId =
     (let transcodedDir = path_join TRANSCODED_DIR videoId
      in if existsSync fs transcodedDir then (True, rm_rf fs transcodedDir) else (False, fs))"

text \<open>
  An entry of \<open>fs.readdir(CHUNKS_DIR, { withFileTypes: true })\<close> together with what
  \<open>statSync\<close> reports for it: its modification time, or \<open>None\<close> when it throws.
\<close>

record dirent =
  name :: string
  isDirectory :: bool
  mtimeMs :: "int option"

definition is_temp :: "string \<Rightarrow> bool" where
  "is_temp n = prefix ''temp_'' n"

fun cleanupTempFiles_loop :: "int \<Rightarrow> fsys \<Rightarrow> dirent list \<Rightarrow> nat \<times> fsys" where
  "cleanupTempFiles_loop now fs [] = (0, fs)"
| "cleanupTempFiles_loop now fs (e # es) =
     (let filePath = path_join CHUNKS_DIR (name e);
          clean = (is_temp (name e) \<and>
                   (case mtimeMs e of None \<Rightarrow> True | Some t \<Rightarrow> now - t > TEMP_FILE_MAX_AGE_MS));
          (n, fs') = cleanupTempFiles_loop now (if clean then unlink_quiet fs filePath else fs) es
      in ((if clean then n + 1 else n), fs'))"

definition cleanupTempFiles :: "int \<Rightarrow> fsys \<Rightarrow> dirent list \<Rightarrow> nat \<times> fsys" where
  "cleanupTempFiles now fs entries =
     (if \<not> existsSync fs CHUNKS_DIR then (0, fs) else cleanupTempFiles_loop now fs entries)"

text \<open>
  The decision of \<open>cleanupOrphanedSessions\<close> for one session directory: with an
  entry in the expiry map only the expiry counts; the Active set and the age of the
  directory are looked at only without one.
\<close>

definition shouldClean ::
  "int \<Rightarrow> string set \<Rightarrow> (string \<rightharpoonup> int) option \<Rightarrow> dirent \<Rightarrow> bool" where
  "shouldClean now activeSessionIds sessionExpiryMap e =
     (case (case sessionExpiryMap of None \<Rightarrow> None | Some m \<Rightarrow> m (name e)) of
        Some expires \<Rightarrow> now > expires
      | None \<Rightarrow>
          (if name e \<notin> activeSessionIds
           then (case mtimeMs e of None \<Rightarrow> True | Some t \<Rightarrow> now - t > ORPHAN_SESSION_MAX_AGE_MS)
           else False))"

fun cleanupOrphanedSessions_loop ::
  "int \<Rightarrow> string set \<Rightarrow> (string \<rightharpoonup> int) option \<Rightarrow> fsys \<Rightarrow> dirent list \<Rightarrow> nat \<times> fsys" where
  "cleanupOrphanedSessions_loop now act expiry fs [] = (0, fs)"
| "cleanupOrphanedSessions_loop now act expiry fs (e # es) =
     (let clean = (isDirectory e \<and> \<not> is_temp (name e) \<and> shouldClean now act expiry e);
          (n, fs') = cleanupOrphanedSessions_loop now act expiry
                       (if clean then rm_rf fs (path_join CHUNKS_DIR (name e)) else fs) es
      in ((if clean then n + 1 else n), fs'))"

definition cleanupOrphanedSessions ::
  "int \<Rightarrow> string set \<Rightarrow> (string \<rightharpoonup> int) option \<Rightarrow> fsys \<Rightarrow> dirent list \<Rightarrow> nat \<times> fsys" where
  "cleanupOrphanedSessions now act expiry fs entries =
     (if \<not> existsSync fs CHUNKS_DIR then (0, fs)
      else cleanupOrphanedSessions_loop now act expiry fs entries)"

definition runFullCleanup ::
  "int \<Rightarrow> string set \<Rightarrow> (string \<rightharpoonup> int) option \<Rightarrow> fsys \<Rightarrow> dirent list
     \<Rightarrow> (nat \<times> nat) \<times> fsys" where
  "runFullCleanup now act expiry fs entries =
     (let (tempFilesCleaned, fs1) = cleanupTempFiles now fs entries;
          (sessionsCleaned, fs2) = cleanupOrphanedSessions now act expiry fs1 entries
      in ((tempFilesCleaned, sessionsCleaned), fs2))"

text \<open>
  The periodic run of routes.ts: both arguments are built from the same list, the
  result of \<open>storage.getActiveUploadSessions()\<close> (a method that is not among the
  sources; its result is an input here).
\<close>

definition getActiveSessionIds :: "UploadSession list \<Rightarrow> string set" where
  "getActiveSessionIds sessions = set (map id_s sessions)"

definition getSessionExpiryMap :: "UploadSession list \<Rightarrow> (string \<rightharpoonup> int)" where
  "getSessionExpiryMap sessions = foldl (\<lambda>m s. m(id_s s \<mapsto> expiresAt s)) Map.empty sessions"

definition periodic_cleanup ::
  "int \<Rightarrow> UploadSession list \<Rightarrow> fsys \<Rightarrow> dirent list \<Rightarrow> (nat \<times> nat) \<times> fsys" where
  "periodic_cleanup now sessions fs entries =
     runFullCleanup now (getActiveSessionIds sessions) (Some (getSessionExpiryMap sessions)) fs entries"

text \<open>The session directories one run removes, in the order of the listing.\<close>

definition removed_sessions ::
  "int \<Rightarrow> string set \<Rightarrow> (string \<rightharpoonup> int) option \<Rightarrow> dirent list \<Rightarrow> string list" where
  "removed_sessions now act expiry entries =
     map name (filter (\<lambda>e. isDirectory e \<and> \<not> is_temp (name e) \<and> shouldClean now act expiry e) entries)"

subsection \<open>DELETE /api/videos/:id\<close>

definition delete_video_route :: "MemStorage \<Rightarrow> fsys \<Rightarrow> string \<Rightarrow> response \<times> MemStorage \<times> fsys" where
  "delete_video_route st fs videoId =
     (let fs1 = snd (cleanupTranscodedFiles fs videoId);
          fs2 = snd (cleanupUploadFile fs1 videoId);
          (deleted, st') = deleteVideo st videoId
      in if \<not> deleted then (respond 404 [(''error'', JStr ''Video not found'')], st', fs2)
         else (respond 200 [(''success'', JBool True)], st', fs2))"

text \<open>The first candidate upload path that exists, in the order of the extension list.\<close>

definition first_upload :: "fsys \<Rightarrow> string \<Rightarrow> string option" where
  "first_upload fs videoId =
     find (existsSync fs) (map (upload_path videoId) upload_extensions)"

section \<open>Encoder driver (transcodeVideoFile in server/queue.ts, transcodeVideo in the worker)\<close>

text \<open>
  The two functions have the same handlers; they differ in the encoder preset only.
  The child process is what it sends: chunks of \<open>stderr\<close> and \<open>stdout\<close>, a
  \<open>close\<close> with the exit code (\<open>None\<close> is \<open>null\<close>, a process ended by a
  signal) and an \<open>error\<close>. The argument vector and the creation of the output
  directory have no part in the progress or in the outcome and are left out.
\<close>

datatype ffmpeg_event =
  StderrData string | StdoutData string | Close "int option" | SpawnError string

datatype failure = ExitedWithCode "int option" | SpawnFailure string

datatype settled = Resolved string | Rejected failure

text \<open>The message of the \<open>Error\<close> the promise is rejected with.\<close>

fun failure_message :: "failure \<Rightarrow> string" where
  "failure_message (ExitedWithCode None) = ''FFmpeg exited with code null''"
| "failure_message (ExitedWithCode (Some c)) = ''FFmpeg exited with code '' @ show_int c"
| "failure_message (SpawnFailure m) = m"

definition is_digit :: "char \<Rightarrow> bool" where
  "is_digit c = (48 \<le> (of_char c :: nat) \<and> (of_char c :: nat) \<le> 57)"

text \<open>
  The pattern of the duration banner at the head of a string: \<open>Duration: \<close>, then
  two digits, a colon, two digits, a colon, two digits, a period and two digits. The
  first three groups are the match.
\<close>

definition duration_at :: "string \<Rightarrow> (string \<times> string \<times> string) option" where
  "duration_at s =
     (let r = drop 10 s in
      if take 10 s = ''Duration: '' \<and> length r \<ge> 11
         \<and> is_digit (r ! 0) \<and> is_digit (r ! 1) \<and> r ! 2 = CHR '':''
         \<and> is_digit (r ! 3) \<and> is_digit (r ! 4) \<and> r ! 5 = CHR '':''
         \<and> is_digit (r ! 6) \<and> is_digit (r ! 7) \<and> r ! 8 = CHR ''.''
         \<and> is_digit (r ! 9) \<and> is_digit (r ! 10)
      then Some (take 2 r, take 2 (drop 3 r), take 2 (drop 6 r)) else None)"

text \<open>\<open>String.prototype.match\<close> without the \<open>g\<close> flag: the leftmost match.\<close>

fun match_duration :: "string \<Rightarrow> (string \<times> string \<times> string) option" where
  "match_duration [] = None"
| "match_duration (c # cs) =
     (case duration_at (c # cs) of Some m \<Rightarrow> Some m | None \<Rightarrow> match_duration cs)"

text \<open>
  The pattern of a progress line at the head of a string: \<open>out_time_ms=\<close> and one
  or more digits, as many as follow. The digits are the match.
\<close>

definition out_time_at :: "string \<Rightarrow> string option" where
  "out_time_at s =
     (let d = takeWhile is_digit (drop 12 s) in
      if take 12 s = ''out_time_ms='' \<and> d \<noteq> [] then Some d else None)"

fun match_out_time :: "string \<Rightarrow> string option" where
  "match_out_time [] = None"
| "match_out_time (c # cs) =
     (case out_time_at (c # cs) of Some d \<Rightarrow> Some d | None \<Rightarrow> match_out_time cs)"

text \<open>\<open>parseInt\<close> of a run of decimal digits.\<close>

definition parse_digits :: "string \<Rightarrow> nat" where
  "parse_digits ds = nat (case parseInt ds of Some n \<Rightarrow> n | None \<Rightarrow> 0)"

text \<open>
  The state of one call: the two local variables, the calls of \<open>onProgress\<close> so
  far, and the promise, which settles once.
\<close>

record driver =
  duration :: nat
  currentTime :: rat
  reported :: "rat list"
  outcome :: "settled option"

definition driver_init :: driver where
  "driver_init = \<lparr> duration = 0, currentTime = 0, reported = [], outcome = None \<rparr>"

definition settle :: "settled \<Rightarrow> driver \<Rightarrow> driver" where
  "settle r d = (case outcome d of None \<Rightarrow> d\<lparr>outcome := Some r\<rparr> | Some _ \<Rightarrow> d)"

definition progress_percent :: "rat \<Rightarrow> nat \<Rightarrow> rat" where
  "progress_percent seconds dur = min (seconds / rat_of_nat dur * 100) 99"

fun driver_step :: "string \<Rightarrow> driver \<Rightarrow> ffmpeg_event \<Rightarrow> driver" where
  "driver_step playlistPath d (StderrData out) =
     (case match_duration out of
        Some (hours, minutes, seconds) \<Rightarrow>
          d\<lparr>duration := parse_digits hours * 3600 + parse_digits minutes * 60 + parse_digits seconds\<rparr>
      | None \<Rightarrow> d)"
| "driver_step playlistPath d (StdoutData out) =
     (case match_out_time out of
        Some us \<Rightarrow>
          (if duration d > 0
           then (let t = rat_of_nat (parse_digits us) / 1000000
                 in d\<lparr>currentTime := t,
                      reported := reported d @ [progress_percent t (duration d)]\<rparr>)
           else d)
      | None \<Rightarrow> d)"
| "driver_step playlistPath d (Close code) =
     (if code = Some 0
      then settle (Resolved playlistPath) (d\<lparr>reported := reported d @ [100]\<rparr>)
      else settle (Rejected (ExitedWithCode code)) d)"
| "driver_step playlistPath d (SpawnError e) = settle (Rejected (SpawnFailure e)) d"

definition playlist_path :: "string \<Rightarrow> Resolution \<Rightarrow> string" where
  "playlist_path outputDir res =
     path_join (path_join outputDir (resolution_name res)) ''playlist.m3u8''"

definition transcodeVideoFile :: "string \<Rightarrow> Resolution \<Rightarrow> ffmpeg_event list \<Rightarrow> driver" where
  "transcodeVideoFile outputDir res events =
     foldl (driver_step (playlist_path outputDir res)) driver_init events"

section \<open>Event bus (emitEvent, getRedisConnection) and the socket gateway\<close>

text \<open>
  The module state of queue.ts that \<open>getRedisConnection\<close> reads and writes. The
  connection object is a flag: whether one has been built. \<open>ctor_throws\<close> tells
  whether \<open>new IORedis\<close> throws when it is called.
\<close>

record redis_state =
  DEV_MODE :: bool
  redisCheckDone :: bool
  redisAvailable :: bool
  connection :: bool

definition getRedisConnection :: "bool \<Rightarrow> redis_state \<Rightarrow> bool \<times> redis_state" where
  "getRedisConnection ctor_throws rs =
     (if DEV_MODE rs then (False, rs\<lparr>redisCheckDone := True\<rparr>)
      else if redisCheckDone rs \<and> \<not> redisAvailable rs then (False, rs)
      else if \<not> connection rs \<and> ctor_throws
        then (False, rs\<lparr>redisAvailable := False, redisCheckDone := True\<rparr>)
      else (redisAvailable rs, rs\<lparr>connection := True\<rparr>))"

text \<open>
  The listener setupWebSocket registers on the emitter: the event goes to every socket
  in the room of its video as \<open>video-event\<close>, and to every socket as
  \<open>global-event\<close>.
\<close>

record socket =
  socket_id :: string
  rooms :: "string list"

record delivery =
  to_socket :: string
  channel :: string
  payload :: VideoEvent

definition gateway_listener :: "socket list \<Rightarrow> VideoEvent \<Rightarrow> delivery list" where
  "gateway_listener sockets ev =
     map (\<lambda>s. \<lparr> to_socket = socket_id s, channel = ''video-event'', payload = ev \<rparr>)
         (filter (\<lambda>s. (''video:'' @ ev_videoId ev) \<in> set (rooms s)) sockets)
     @ map (\<lambda>s. \<lparr> to_socket = socket_id s, channel = ''global-event'', payload = ev \<rparr>) sockets"

text \<open>
  The bus: the sockets, what has been delivered to them, what has been handed to the
  broker on \<open>video-events\<close>, and the rejections of \<open>publish\<close> that the
  \<open>catch\<close> swallowed.
\<close>

record bus =
  redis :: redis_state
  sockets :: "socket list"
  delivered :: "delivery list"
  published :: "VideoEvent list"
  swallowed :: nat

text \<open>
  \<open>emitEvent\<close>. \<open>publish_rejects\<close> tells whether the promise of
  \<open>redis.publish\<close> is rejected. The function returns nothing and awaits nothing:
  the result is the bus after the call.
\<close>

definition emitEvent ::
  "bool \<Rightarrow> bool \<Rightarrow> bus \<Rightarrow> EventType \<Rightarrow> string \<Rightarrow> (string \<times> json) list \<Rightarrow> int \<Rightarrow> bus" where
  "emitEvent ctor_throws publish_rejects b t videoId d now =
     (let event = mk_event t videoId d now;
          b1 = b\<lparr>delivered := delivered b @ gateway_listener (sockets b) event\<rparr>;
          (conn, rs) = getRedisConnection ctor_throws (redis b1);
          b2 = b1\<lparr>redis := rs\<rparr>
      in if conn
         then b2\<lparr>published := published b2 @ [event],
                 swallowed := (if publish_rejects then swallowed b2 + 1 else swallowed b2)\<rparr>
         else b2)"

section \<open>In-process worker (simulateTranscoding)\<close>

text \<open>
  One call of \<open>simulateTranscoding\<close> is a sequence of steps on the store, each the
  code between two points where the call waits for the encoder. What the encoder does
  is an input: it is missing, or it runs, sends its output and ends.
\<close>

datatype ending = Exited "int option" | SpawnFailed string

datatype encoder_run = FfmpegMissing | Encoder "ffmpeg_event list" ending

fun ending_event :: "ending \<Rightarrow> ffmpeg_event" where
  "ending_event (Exited code) = Close code"
| "ending_event (SpawnFailed e) = SpawnError e"

text \<open>The output chunks of a run: \<open>close\<close> and \<open>error\<close> come from its ending only.\<close>

fun is_output :: "ffmpeg_event \<Rightarrow> bool" where
  "is_output (StderrData _) = True"
| "is_output (StdoutData _) = True"
| "is_output _ = False"

datatype action = Processing | NoFfmpeg | Progress rat | Completed | Failed string

text \<open>
  The progress callback keeps \<open>lastProgress\<close> and lets a value through when it is 5
  above it, or is 100.
\<close>

fun progress_steps :: "rat \<Rightarrow> rat list \<Rightarrow> rat list" where
  "progress_steps lastProgress [] = []"
| "progress_steps lastProgress (p # ps) =
     (if p - lastProgress \<ge> 5 \<or> p = 100 then p # progress_steps p ps
      else progress_steps lastProgress ps)"

definition job_actions :: "TranscodingJobData \<Rightarrow> encoder_run \<Rightarrow> action list" where
  "job_actions jd run =
     Processing #
     (case run of
        FfmpegMissing \<Rightarrow> [NoFfmpeg]
      | Encoder chunks e \<Rightarrow>
          (let d = transcodeVideoFile (jd_outputDir jd) (jd_resolution jd)
                     (filter is_output chunks @ [ending_event e])
           in map Progress (progress_steps 0 (reported d)) @
              (case outcome d of
                 Some (Resolved _) \<Rightarrow> [Completed]
               | Some (Rejected f) \<Rightarrow> [Failed (failure_message f)]
               | None \<Rightarrow> [])))"

definition hls_url :: "TranscodingJobData \<Rightarrow> string" where
  "hls_url jd =
     ''/api/stream/'' @ jd_videoId jd @ ''/'' @ resolution_name (jd_resolution jd) @ ''/playlist.m3u8''"

definition progress_map :: "Video \<Rightarrow> (Resolution \<rightharpoonup> rat)" where
  "progress_map v = (case transcodingProgress v of Some m \<Rightarrow> m | None \<Rightarrow> Map.empty)"

definition url_map :: "Video \<Rightarrow> (Resolution \<rightharpoonup> string)" where
  "url_map v = (case hlsUrls v of Some m \<Rightarrow> m | None \<Rightarrow> Map.empty)"

definition job_failed ::
  "TranscodingJobData \<Rightarrow> int \<Rightarrow> string \<Rightarrow> string \<Rightarrow> MemStorage \<Rightarrow> MemStorage \<times> VideoEvent list" where
  "job_failed jd now video_message event_message st =
     (let st1 = snd (updateTranscodingJob st (jd_jobId jd) [SetStatusJ JobFailed, SetCompletedAtJ now]);
          st2 = snd (updateVideo st1 (jd_videoId jd) [SetStatusV FAILED, SetErrorMessageV video_message])
      in (st2, [mk_event EV_TRANSCODING_FAILED (jd_videoId jd)
                  [(''resolution'', JStr (resolution_name (jd_resolution jd))),
                   (''jobId'', JStr (jd_jobId jd)), (''error'', JStr event_message)] now]))"

fun exec_action ::
  "TranscodingJobData \<Rightarrow> int \<Rightarrow> action \<Rightarrow> MemStorage \<Rightarrow> MemStorage \<times> VideoEvent list" where
  "exec_action jd now Processing st =
     (snd (updateTranscodingJob st (jd_jobId jd) [SetStatusJ JobProcessing, SetStartedAt now]),
      [mk_event EV_TRANSCODING_PROGRESS (jd_videoId jd)
         [(''resolution'', JStr (resolution_name (jd_resolution jd))), (''progress'', JNum 0),
          (''jobId'', JStr (jd_jobId jd))] now])"
| "exec_action jd now NoFfmpeg st =
     job_failed jd now ''FFmpeg not available - install FFmpeg to enable video transcoding''
       ''FFmpeg not available'' st"
| "exec_action jd now (Progress p) st =
     (let st1 = (case getVideo st (jd_videoId jd) of
                   None \<Rightarrow> st
                 | Some video \<Rightarrow>
                     snd (updateVideo st (jd_videoId jd)
                            [SetTranscodingProgress ((progress_map video)(jd_resolution jd \<mapsto> p))]));
          st2 = snd (updateTranscodingJob st1 (jd_jobId jd) [SetProgress p])
      in (st2, [mk_event EV_TRANSCODING_PROGRESS (jd_videoId jd)
                  [(''resolution'', JStr (resolution_name (jd_resolution jd))), (''progress'', JNum p),
                   (''jobId'', JStr (jd_jobId jd))] now]))"
| "exec_action jd now Completed st =
     (let hlsUrl = hls_url jd;
          st1 = snd (updateTranscodingJob st (jd_jobId jd)
                       [SetStatusJ JobCompleted, SetProgress 100, SetOutputPath hlsUrl,
                        SetCompletedAtJ now]);
          st2 = (case getVideo st1 (jd_videoId jd) of
                   None \<Rightarrow> st1
                 | Some video \<Rightarrow>
                     (let currentHlsUrls = (url_map video)(jd_resolution jd \<mapsto> hlsUrl);
                          currentProgress = (progress_map video)(jd_resolution jd \<mapsto> 100);
                          allCompleted = list_all (\<lambda>r. currentProgress r = Some 100) allResolutions
                      in snd (updateVideo st1 (jd_videoId jd)
                                [SetHlsUrls currentHlsUrls, SetTranscodingProgress currentProgress,
                                 SetStatusV (if allCompleted then COMPLETED else TRANSCODING),
                                 SetCompletedAtV (if allCompleted then Some now else None)])))
      in (st2, [mk_event EV_TRANSCODING_COMPLETED (jd_videoId jd)
                  [(''resolution'', JStr (resolution_name (jd_resolution jd))),
                   (''jobId'', JStr (jd_jobId jd)), (''hlsUrl'', JStr hlsUrl)] now]))"
| "exec_action jd now (Failed m) st = job_failed jd now m m st"

text \<open>
  The three calls run side by side. A configuration is the store, the events emitted
  so far and, for each resolution, the steps its call has still to take. A schedule
  names, step by step, the call that takes its next step and the clock it reads; a
  call that has no step left lets its turn pass.
\<close>

record config =
  store :: MemStorage
  emitted :: "VideoEvent list"
  remaining :: "Resolution \<Rightarrow> action list"

fun run_schedule ::
  "(Resolution \<Rightarrow> TranscodingJobData) \<Rightarrow> (Resolution \<times> int) list \<Rightarrow> config \<Rightarrow> config" where
  "run_schedule jobs [] c = c"
| "run_schedule jobs ((r, now) # sched) c =
     (case remaining c r of
        [] \<Rightarrow> run_schedule jobs sched c
      | a # rest \<Rightarrow>
          (let (st', evs) = exec_action (jobs r) now a (store c)
           in run_schedule jobs sched
                \<lparr> store = st', emitted = emitted c @ evs, remaining = (remaining c)(r := rest) \<rparr>))"

definition job_data :: "string \<Rightarrow> string \<Rightarrow> string \<Rightarrow> (Resolution \<Rightarrow> string) \<Rightarrow> Resolution
  \<Rightarrow> TranscodingJobData" where
  "job_data vid inp outDir jobIds r =
     \<lparr> jd_videoId = vid, jd_jobId = jobIds r, jd_resolution = r, jd_inputPath = inp,
       jd_outputDir = outDir \<rparr>"

definition start_config ::
  "MemStorage \<Rightarrow> (Resolution \<Rightarrow> TranscodingJobData) \<Rightarrow> (Resolution \<Rightarrow> encoder_run) \<Rightarrow> config" where
  "start_config st jobs runs =
     \<lparr> store = st, emitted = [], remaining = (\<lambda>r. job_actions (jobs r) (runs r)) \<rparr>"

text \<open>Every call has taken its last step.\<close>

definition all_done :: "config \<Rightarrow> bool" where
  "all_done c = list_all (\<lambda>r. remaining c r = []) allResolutions"

text \<open>
  The store as POST /api/upload/complete leaves it for a video: the video is there with
  a progress of 0 for each resolution and no playback URL, not yet completed or
  failed, and each resolution has its own pending job.
\<close>

definition jobs_pending :: "MemStorage \<Rightarrow> string \<Rightarrow> (Resolution \<Rightarrow> string) \<Rightarrow> bool" where
  "jobs_pending st vid jobIds =
     (inj jobIds
      \<and> (case videos st vid of
            None \<Rightarrow> False
          | Some v \<Rightarrow>
              hlsUrls v = None
              \<and> transcodingProgress v = Some [R360P \<mapsto> 0, R720P \<mapsto> 0, R1080P \<mapsto> 0]
              \<and> (status_v v = QUEUED \<or> status_v v = TRANSCODING))
      \<and> list_all (\<lambda>r. case transcodingJobs st (jobIds r) of
                          None \<Rightarrow> False
                        | Some j \<Rightarrow> status_j j = JobPending \<and> resolution j = r \<and> videoId_j j = vid)
           allResolutions)"

subsection \<open>What the store says about a video and its jobs\<close>

definition vstatus :: "MemStorage \<Rightarrow> string \<Rightarrow> VideoStatus option" where
  "vstatus st vid = map_option status_v (videos st vid)"

definition vprogress :: "MemStorage \<Rightarrow> string \<Rightarrow> Resolution \<Rightarrow> rat option" where
  "vprogress st vid r = (case videos st vid of None \<Rightarrow> None | Some v \<Rightarrow> progress_map v r)"

definition vurl :: "MemStorage \<Rightarrow> string \<Rightarrow> Resolution \<Rightarrow> string option" where
  "vurl st vid r = (case videos st vid of None \<Rightarrow> None | Some v \<Rightarrow> url_map v r)"

definition jstatus :: "MemStorage \<Rightarrow> (Resolution \<Rightarrow> string) \<Rightarrow> Resolution \<Rightarrow> JobStatus option" where
  "jstatus st jobIds r = map_option status_j (transcodingJobs st (jobIds r))"

text \<open>
  The steps a call has left once it is processing: progress values other than 100,
  then either the failure step, or the value 100 and the completion step.
\<close>

fun tail_ok :: "action list \<Rightarrow> bool" where
  "tail_ok [] = False"
| "tail_ok (Processing # t) = False"
| "tail_ok (NoFfmpeg # t) = (t = [])"
| "tail_ok (Failed m # t) = (t = [])"
| "tail_ok (Completed # t) = (t = [])"
| "tail_ok (Progress p # t) = (if p = 100 then t = [Completed] else tail_ok t)"

text \<open>
  What the store says of one job and the steps its call has left, by the status of the
  job: a pending job has all its steps left, no URL and a progress that is not 100; a
  job in process has a proper rest of its steps, no URL, and a progress of 100 only
  when the completion step is all that is left; a completed job has no step left, a
  URL and the progress 100; a failed job has no step left, no URL and a progress that
  is not 100.
\<close>

fun job_ok :: "JobStatus option \<Rightarrow> action list \<Rightarrow> string option \<Rightarrow> rat option \<Rightarrow> bool" where
  "job_ok None rem url prog = False"
| "job_ok (Some JobPending) rem url prog =
     ((case rem of [] \<Rightarrow> False | a # t \<Rightarrow> a = Processing \<and> tail_ok t)
      \<and> url = None \<and> prog \<noteq> Some 100)"
| "job_ok (Some JobProcessing) rem url prog =
     (tail_ok rem \<and> url = None \<and> (prog = Some 100 \<longrightarrow> rem = [Completed]))"
| "job_ok (Some JobCompleted) rem url prog = (rem = [] \<and> url \<noteq> None \<and> prog = Some 100)"
| "job_ok (Some JobFailed) rem url prog = (rem = [] \<and> url = None \<and> prog \<noteq> Some 100)"

text \<open>The invariant of the schedule.\<close>

definition job_inv :: "string \<Rightarrow> (Resolution \<Rightarrow> string) \<Rightarrow> config \<Rightarrow> bool" where
  "job_inv vid jobIds c =
     (videos (store c) vid \<noteq> None
      \<and> (\<forall>r. job_ok (jstatus (store c) jobIds r) (remaining c r) (vurl (store c) vid r)
                (vprogress (store c) vid r))
      \<and> (vstatus (store c) vid = Some COMPLETED \<longrightarrow> (\<forall>r. vprogress (store c) vid r = Some 100))
      \<and> ((\<forall>r. jstatus (store c) jobIds r = Some JobCompleted)
           \<longrightarrow> vstatus (store c) vid = Some COMPLETED)
      \<and> (vstatus (store c) vid = Some FAILED
           \<longrightarrow> (\<exists>r. jstatus (store c) jobIds r = Some JobFailed)))"

section \<open>Example states\<close>

text \<open>
  A video \<open>v1\<close> of 5 000 000 bytes and its session \<open>s1\<close> with the 2 MiB chunk size
  of the route, hence three chunks; \<open>cs\<close> are the indices received so far.
\<close>

definition ex_video :: Video where
  "ex_video =
     \<lparr> id_v = ''v1'', filename_v = ''clip.mp4'', originalSize = 5000000, mimeType = ''video/mp4'',
       status_v = UPLOADING, uploadProgress = Num 0, transcodingProgress = None, hlsUrls = None,
       errorMessage_v = None, createdAt_v = 0, completedAt_v = None \<rparr>"

definition ex_session :: "int list \<Rightarrow> UploadSession" where
  "ex_session cs =
     \<lparr> id_s = ''s1'', videoId_s = ''v1'', filename_s = ''clip.mp4'', totalSize = 5000000,
       chunkSize = 2097152, totalChunks = 3, uploadedChunks = cs, status_s = SessionActive,
       createdAt_s = 0, expiresAt = 86400000 \<rparr>"

definition ex_store :: "int list \<Rightarrow> MemStorage" where
  "ex_store cs =
     \<lparr> videos = [''v1'' \<mapsto> ex_video], uploadSessions = [''s1'' \<mapsto> ex_session cs],
       transcodingJobs = Map.empty \<rparr>"

text \<open>A chunk request for \<open>s1\<close> whose body multer wrote to \<open>tmp\<close>.\<close>

definition ex_request :: "string \<Rightarrow> string \<Rightarrow> chunk_request" where
  "ex_request sid ci =
     \<lparr> req_sessionId = Some sid, req_chunkIndex = Some ci, req_file = Some ''tmp'' \<rparr>"

text \<open>The chunk directory of \<open>s1\<close> holding chunk 2, and a new body in \<open>tmp\<close>.\<close>

definition ex_chunk_fs :: "string \<Rightarrow> fsys" where
  "ex_chunk_fs content =
     [''storage/chunks/s1'' \<mapsto> DirNode, ''storage/chunks/s1/chunk_2'' \<mapsto> FileNode ''old'',
      ''tmp'' \<mapsto> FileNode content]"

text \<open>A request for a session the store does not have, and bodies of 0 and 3 bytes.\<close>

definition ex_body_fs :: "string \<Rightarrow> fsys" where
  "ex_body_fs content = [''tmp'' \<mapsto> FileNode content]"

text \<open>
  The chunk directory of \<open>s1\<close> on disk with one chunk, and its entry in the listing
  of the chunks directory.
\<close>

definition ex_gc_fs :: fsys where
  "ex_gc_fs =
     [''storage/chunks'' \<mapsto> DirNode, ''storage/chunks/s1'' \<mapsto> DirNode,
      ''storage/chunks/s1/chunk_0'' \<mapsto> FileNode ''abc'']"

definition ex_gc_entries :: "dirent list" where
  "ex_gc_entries = [\<lparr> name = ''s1'', isDirectory = True, mtimeMs = Some 86400000 \<rparr>]"

text \<open>The expiry the map declares for a session, if any.\<close>

definition declared_expiry :: "(string \<rightharpoonup> int) option \<Rightarrow> string \<Rightarrow> int option" where
  "declared_expiry sessionExpiryMap sid =
     (case sessionExpiryMap of None \<Rightarrow> None | Some m \<Rightarrow> m sid)"



text \<open>The storage tree with one chunk of a session in it.\<close>

definition ex_storage_fs :: fsys where
  "ex_storage_fs =
     [''storage'' \<mapsto> DirNode, ''storage/chunks'' \<mapsto> DirNode, ''storage/uploads'' \<mapsto> DirNode,
      ''storage/transcoded'' \<mapsto> DirNode, ''storage/chunks/s1'' \<mapsto> DirNode,
      ''storage/chunks/s1/chunk_0'' \<mapsto> FileNode ''c0'']"

text \<open>
  Two connected sockets, the first subscribed to \<open>v1\<close>; \<open>dev\<close> tells whether the
  module runs without Redis.
\<close>

definition ex_bus :: "bool \<Rightarrow> bus" where
  "ex_bus dev =
     \<lparr> redis = \<lparr> DEV_MODE = dev, redisCheckDone = True, redisAvailable = \<not> dev,
                  connection = \<not> dev \<rparr>,
       sockets = [\<lparr> socket_id = ''a'', rooms = [''a'', ''video:v1''] \<rparr>,
                  \<lparr> socket_id = ''b'', rooms = [''b''] \<rparr>],
       delivered = [], published = [], swallowed = 0 \<rparr>"

text \<open>An encoder that reports a duration of 10 s and a position of 5 s.\<close>

definition ex_chunks :: "ffmpeg_event list" where
  "ex_chunks = [StderrData ''Duration: 00:00:10.00'', StdoutData ''out_time_ms=5000000'']"

text \<open>
  The video \<open>v1\<close> as the completion of its upload leaves it, with a pending job for
  each resolution, and three encoder runs: one that reports half of the duration and
  exits with code 0, one that exits with code 1, and a missing encoder.
\<close>

definition ex_job :: "Resolution \<Rightarrow> TranscodingJob" where
  "ex_job r =
     \<lparr> id_j = resolution_name r, videoId_j = ''v1'', resolution = r, status_j = JobPending,
       progress = 0, inputPath = ''storage/uploads/v1.mp4'', outputPath = None,
       errorMessage_j = None, createdAt_j = 0, startedAt = None, completedAt_j = None \<rparr>"

definition ex_queued_store :: MemStorage where
  "ex_queued_store =
     \<lparr> videos = [''v1'' \<mapsto> ex_video\<lparr>status_v := QUEUED, uploadProgress := Num 100,
                     transcodingProgress := Some [R360P \<mapsto> 0, R720P \<mapsto> 0, R1080P \<mapsto> 0]\<rparr>],
       uploadSessions = Map.empty,
       transcodingJobs = [''360p'' \<mapsto> ex_job R360P, ''720p'' \<mapsto> ex_job R720P,
                          ''1080p'' \<mapsto> ex_job R1080P] \<rparr>"

fun ex_runs :: "Resolution \<Rightarrow> encoder_run" where
  "ex_runs R360P = Encoder ex_chunks (Exited (Some 0))"
| "ex_runs R720P = Encoder [] (Exited (Some 1))"
| "ex_runs R1080P = FfmpegMissing"

definition ex_schedule :: "(Resolution \<times> int) list" where
  "ex_schedule =
     [(R360P, 1), (R720P, 2), (R1080P, 3), (R720P, 4), (R360P, 5), (R1080P, 6), (R360P, 7),
      (R360P, 8)]"

section \<open>\<open>path.join\<close> on single path segments\<close>

lemma segments_nonempty: "segments p \<noteq> []"
  by (induction p) (simp_all add: Let_def)

lemma segments_append:
  "CHR ''/'' \<notin> set s \<Longrightarrow> segments (s @ t) = (s @ hd (segments t)) # tl (segments t)"
  by (induction s) (auto simp add: segments_nonempty Let_def)

lemma segments_slash:
  "CHR ''/'' \<notin> set s \<Longrightarrow> segments (s @ CHR ''/'' # t) = s # segments t"
  using segments_append [of s "CHR ''/'' # t"] by simp

lemma segments_plain: "CHR ''/'' \<notin> set s \<Longrightarrow> segments s = [s]"
  using segments_append [of s "[]"] by simp

lemma join_segments_Cons:
  "join_segments ((c # s) # ts) = c # join_segments (s # ts)"
  by (cases ts) simp_all

lemma join_segments_segments: "join_segments (segments p) = p"
proof (induction p)
  case Nil
  then show ?case by simp
next
  case (Cons c cs)
  obtain s ss where s: "segments cs = s # ss"
    using segments_nonempty [of cs] by (cases "segments cs") auto
  with Cons show ?case by (simp add: Let_def join_segments_Cons)
qed

lemma segments_join:
  "list_all plain_name ss \<Longrightarrow> ss \<noteq> [] \<Longrightarrow> segments (join_segments ss) = ss"
proof (induction ss rule: join_segments.induct)
  case 1
  then show ?case by simp
next
  case (2 s)
  then show ?case by (simp add: plain_name_def segments_plain)
next
  case (3 s t ts)
  then show ?case by (simp add: plain_name_def segments_slash del: segments.simps)
qed

lemma normalizeString_plain:
  "list_all plain_name ss \<Longrightarrow> normalizeString a res ss = rev res @ ss"
  by (induction ss arbitrary: res) (auto simp add: plain_name_def)

lemma join_segments_snoc:
  "ss \<noteq> [] \<Longrightarrow> join_segments (ss @ [b]) = join_segments ss @ ''/'' @ b"
  by (induction ss rule: join_segments.induct) simp_all

lemma plain_name_ends:
  "plain_name s \<Longrightarrow> s \<noteq> [] \<and> hd s \<noteq> CHR ''/'' \<and> last s \<noteq> CHR ''/''"
  unfolding plain_name_def using hd_in_set [of s] last_in_set [of s] by metis

lemma join_segments_shape:
  "list_all plain_name ss \<Longrightarrow> ss \<noteq> [] \<Longrightarrow>
   join_segments ss \<noteq> [] \<and> hd (join_segments ss) \<noteq> CHR ''/''
   \<and> last (join_segments ss) \<noteq> CHR ''/''"
proof (induction ss rule: join_segments.induct)
  case 1
  then show ?case by simp
next
  case (2 s)
  then show ?case using plain_name_ends [of s] by simp
next
  case (3 s t ts)
  then show ?case using plain_name_ends [of s] by simp
qed

lemma normalize_path_plain:
  assumes "list_all plain_name ss" "ss \<noteq> []"
  shows "normalize_path (join_segments ss) = join_segments ss"
  using join_segments_shape [OF assms] segments_join [OF assms] normalizeString_plain [OF assms(1)]
  by (simp add: normalize_path_def Let_def)

lemma path_join_segments:
  assumes "list_all plain_name ss" "ss \<noteq> []" "plain_name b"
  shows "path_join (join_segments ss) b = join_segments ss @ ''/'' @ b"
proof -
  have 1: "list_all plain_name (ss @ [b])" "ss @ [b] \<noteq> []" using assms by simp_all
  have "join_segments ss \<noteq> []" using join_segments_shape [OF assms(1,2)] by simp
  moreover have "b \<noteq> []" using assms(3) by (simp add: plain_name_def)
  ultimately have "path_join (join_segments ss) b = normalize_path (join_segments (ss @ [b]))"
    using assms(2) by (simp add: path_join_def join_segments_snoc)
  also have "\<dots> = join_segments (ss @ [b])" using normalize_path_plain [OF 1] .
  finally show ?thesis using assms(2) by (simp add: join_segments_snoc)
qed

text \<open>A path of single segments keeps a single segment joined to it as it is.\<close>

lemma path_join_plain:
  assumes "list_all plain_name (segments a)" "plain_name b"
  shows "path_join a b = a @ ''/'' @ b"
  using path_join_segments [OF assms(1) segments_nonempty assms(2)]
  by (simp add: join_segments_segments)

lemma path_join_CHUNKS_DIR: "plain_name b \<Longrightarrow> path_join CHUNKS_DIR b = ''storage/chunks/'' @ b"
  using path_join_segments [of "[''storage'', ''chunks'']" b]
  by (simp add: CHUNKS_DIR_def plain_name_def)



lemma path_join_session_dir:
  "plain_name sid \<Longrightarrow> plain_name b \<Longrightarrow>
   path_join (path_join CHUNKS_DIR sid) b = ''storage/chunks/'' @ sid @ ''/'' @ b"
  using path_join_segments [of "[''storage'', ''chunks'', sid]" b]
  by (simp add: path_join_CHUNKS_DIR plain_name_def)

lemma path_join_two:
  "plain_name a \<Longrightarrow> plain_name b \<Longrightarrow> plain_name c \<Longrightarrow>
   path_join (path_join a b) c = a @ ''/'' @ b @ ''/'' @ c"
  using path_join_segments [of "[a]" b] path_join_segments [of "[a, b]" c]
  by simp

text \<open>The directories of the module, and what normalisation does to other names.\<close>

lemma ex_storage_dirs:
  "path_join ''./storage'' ''chunks'' = CHUNKS_DIR"
  "path_join ''./storage'' ''uploads'' = UPLOADS_DIR"
  "path_join ''./storage'' ''transcoded'' = TRANSCODED_DIR"
  by (simp_all add: path_join_def normalize_path_def Let_def CHUNKS_DIR_def UPLOADS_DIR_def
      TRANSCODED_DIR_def)

lemma ex_path_join_parent: "path_join TRANSCODED_DIR ''..'' = ''storage''"
  by (simp add: path_join_def normalize_path_def Let_def TRANSCODED_DIR_def)

lemma ex_path_join_trailing: "path_join TRANSCODED_DIR ''v9/'' = ''storage/transcoded/v9/''"
  by (simp add: path_join_def normalize_path_def Let_def TRANSCODED_DIR_def)

lemma ex_path_join_misc:
  "path_join ''a//b'' ''../../../c'' = ''../c''"
  "path_join ''/a'' ''../../c/.'' = ''/c''"
  "path_join ''a'' ''..'' = ''.''"
  "path_join ''a/'' ''../'' = ''./''"
  by (simp_all add: path_join_def normalize_path_def Let_def)

section \<open>\<open>parseInt\<close> on decimal numerals\<close>

lemma digit_val_digit: "is_digit c \<Longrightarrow> digit_val 10 c = Some (of_char c - 48)"
  by (auto simp add: is_digit_def digit_val_def Let_def)

lemma digit_not_white: "is_digit c \<Longrightarrow> \<not> isWhiteSpace c"
  by (auto simp add: is_digit_def isWhiteSpace_def)

lemma digit_not_sign:
  "is_digit c \<Longrightarrow> c \<noteq> CHR ''-'' \<and> c \<noteq> CHR ''+'' \<and> c \<noteq> CHR ''x'' \<and> c \<noteq> CHR ''X''"
  by (auto simp add: is_digit_def)

lemma takeWhile_digits:
  "list_all is_digit s \<Longrightarrow> takeWhile (\<lambda>c. digit_val 10 c \<noteq> None) s = s"
  by (induction s) (auto simp add: digit_val_digit)

lemma foldl_digits:
  "list_all is_digit s \<Longrightarrow>
   foldl (\<lambda>a c. a * 10 + the (digit_val 10 c)) n s = foldl (\<lambda>a c. a * 10 + (of_char c - 48)) n s"
  by (induction s arbitrary: n) (auto simp add: digit_val_digit)

lemma digits_not_hex:
  assumes "list_all is_digit s"
  shows "take 2 s \<noteq> ''0x'' \<and> take 2 s \<noteq> ''0X''"
proof (cases s)
  case Nil
  then show ?thesis by simp
next
  case (Cons a t)
  show ?thesis
  proof (cases t)
    case Nil
    with Cons show ?thesis by simp
  next
    case (Cons b u)
    with assms \<open>s = a # t\<close> have "is_digit b" by simp
    from digit_not_sign [OF this] Cons \<open>s = a # t\<close> show ?thesis by simp
  qed
qed

text \<open>On a string of decimal digits \<open>parseInt\<close> is the number the digits write.\<close>

lemma parseInt_digits:
  assumes "s \<noteq> []" "list_all is_digit s"
  shows "parseInt s = Some (int (foldl (\<lambda>a c. a * 10 + (of_char c - 48)) 0 s))"
proof -
  obtain c t where s: "s = c # t" using assms(1) by (cases s) auto
  with assms(2) have c: "is_digit c" by simp
  have dw: "dropWhile isWhiteSpace s = s" using s digit_not_white [OF c] by simp
  have sg: "(take 1 s = ''-'') = False" "(take 1 s = ''+'') = False"
    using s digit_not_sign [OF c] by simp_all
  have nh: "(take 2 s = ''0x'') = False" "(take 2 s = ''0X'') = False"
    using digits_not_hex [OF assms(2)] by simp_all
  have ne: "(s = []) = False" using assms(1) by simp
  show ?thesis
    by (simp only: parseInt_def dw Let_def sg nh ne if_False simp_thms
        takeWhile_digits [OF assms(2)] foldl_digits [OF assms(2)])
qed

section \<open>The state store: chunk bookkeeping\<close>

lemma markChunkUploaded_absent:
  "uploadSessions st sid = None \<Longrightarrow> markChunkUploaded st sid idx = (None, st)"
  by (simp add: markChunkUploaded_def)

lemma markChunkUploaded_session:
  "uploadSessions st sid = Some s \<Longrightarrow>
   fst (markChunkUploaded st sid idx) =
     Some (if idx \<in> set (uploadedChunks s) then s
           else s\<lparr>uploadedChunks := sort (uploadedChunks s @ [idx])\<rparr>)"
  by (simp add: markChunkUploaded_def Let_def split: option.splits)

lemma markChunkUploaded_sessions:
  "uploadSessions st sid = Some s \<Longrightarrow>
   uploadSessions (snd (markChunkUploaded st sid idx)) =
     (uploadSessions st)(sid \<mapsto> (if idx \<in> set (uploadedChunks s) then s
         else s\<lparr>uploadedChunks := sort (uploadedChunks s @ [idx])\<rparr>))"
  by (simp add: markChunkUploaded_def Let_def split: option.splits)

lemma markChunkUploaded_known:
  assumes "uploadSessions st sid = Some s" "idx \<in> set (uploadedChunks s)"
  shows "fst (markChunkUploaded st sid idx) = Some s"
    and "uploadSessions (snd (markChunkUploaded st sid idx)) = uploadSessions st"
  using assms by (auto simp add: markChunkUploaded_session markChunkUploaded_sessions)

lemma markChunkUploaded_grows:
  assumes "uploadSessions st sid = Some s"
  shows "\<exists>s'. uploadSessions (snd (markChunkUploaded st sid' idx)) sid = Some s'
           \<and> length (uploadedChunks s) \<le> length (uploadedChunks s')
           \<and> set (uploadedChunks s) \<subseteq> set (uploadedChunks s')"
proof (cases "uploadSessions st sid'")
  case None
  then show ?thesis using assms by (simp add: markChunkUploaded_absent)
next
  case (Some t)
  then show ?thesis using assms by (auto simp add: markChunkUploaded_sessions)
qed

lemma markChunks_grows:
  "uploadSessions st sid = Some s \<Longrightarrow>
   \<exists>s'. uploadSessions (markChunks st calls) sid = Some s'
           \<and> length (uploadedChunks s) \<le> length (uploadedChunks s')
           \<and> set (uploadedChunks s) \<subseteq> set (uploadedChunks s')"
proof (induction calls arbitrary: st s)
  case Nil
  then show ?case by simp
next
  case (Cons c calls)
  obtain sid' idx where c: "c = (sid', idx)" by (cases c)
  from markChunkUploaded_grows[OF Cons.prems, of sid' idx] obtain s1 where
    s1: "uploadSessions (snd (markChunkUploaded st sid' idx)) sid = Some s1"
        "length (uploadedChunks s) \<le> length (uploadedChunks s1)"
        "set (uploadedChunks s) \<subseteq> set (uploadedChunks s1)" by blast
  from Cons.IH[OF s1(1)] obtain s' where
    "uploadSessions (markChunks (snd (markChunkUploaded st sid' idx)) calls) sid = Some s'"
    "length (uploadedChunks s1) \<le> length (uploadedChunks s')"
    "set (uploadedChunks s1) \<subseteq> set (uploadedChunks s')" by blast
  with s1 c show ?case by (auto intro: order_trans)
qed

lemma reupload_succeeds:
  assumes "reupload_ready st fs req" "req_sessionId req = Some sid" "uploadSessions st sid = Some s"
  shows "status (fst (post_upload_chunk st fs req)) = 200
       \<and> json_field (body (fst (post_upload_chunk st fs req))) ''success'' = Some (JBool True)
       \<and> json_field (body (fst (post_upload_chunk st fs req))) ''uploadedChunks''
           = Some (JNat (length (uploadedChunks s)))
       \<and> uploadSessions (fst (snd (post_upload_chunk st fs req))) = uploadSessions st"
proof -
  obtain ci tmp where r: "req_chunkIndex req = Some ci" "req_file req = Some tmp"
    using assms(1) by (auto simp add: reupload_ready_def split: option.splits prod.splits)
  obtain idx content where p: "parseInt ci = Some idx" "fs tmp = Some (FileNode content)"
    using assms r
    by (auto simp add: reupload_ready_def split: option.splits prod.splits fnode.splits)
  have h: "sid \<noteq> []" "content \<noteq> []" "idx \<in> set (uploadedChunks s)" "0 \<le> idx"
     "idx < int (totalChunks s)"
     "fs (path_join CHUNKS_DIR sid) = Some DirNode"
     "fs (path_join (path_join CHUNKS_DIR sid) (''chunk_'' @ show_int idx)) \<noteq> Some DirNode"
    using assms r p by (auto simp add: reupload_ready_def)
  obtain st' where m: "markChunkUploaded st sid idx = (Some s, st')"
    using markChunkUploaded_known(1)[OF assms(3) h(3)]
    by (cases "markChunkUploaded st sid idx") simp
  have st': "uploadSessions st' = uploadSessions st"
    using markChunkUploaded_known(2)[OF assms(3) h(3)] m by simp
  have ren: "rename fs tmp (path_join CHUNKS_DIR sid)
               (path_join (path_join CHUNKS_DIR sid) (''chunk_'' @ show_int idx))
     = Some ((fs(tmp := None))
          (path_join (path_join CHUNKS_DIR sid) (''chunk_'' @ show_int idx) \<mapsto> FileNode content))"
    using p h by (simp add: rename_def)
  have pc: "post_upload_chunk st fs req =
     (respond 200
         [(''success'', JBool True),
          (''uploadedChunks'', JNat (length (uploadedChunks s))),
          (''totalChunks'', JNat (totalChunks s)),
          (''progress'', json_of_jsnum (percent_of (length (uploadedChunks s)) (totalChunks s)))],
      st',
      (fs(tmp := None))
        (path_join (path_join CHUNKS_DIR sid) (''chunk_'' @ show_int idx) \<mapsto> FileNode content))"
    unfolding post_upload_chunk_def
    using assms(2,3) r p h m ren
    by (simp add: Let_def getUploadSession_def existsSync_def)
  show ?thesis
    unfolding pc using st' by (simp add: respond_def)
qed

text \<open>
  Claim C3. \<open>markChunkUploaded\<close> is idempotent. For an index the session already
  has, a further call returns the session as it is and leaves every session of the
  store, hence \<open>uploadedChunks\<close> and its size, unchanged. A repeated
  POST /api/upload/chunk of such an index (a well-formed request with a body that is
  not empty, the chunk directory as the first upload left it) is answered with 200 and
  \<open>success: true\<close>, reports the unchanged count and changes no session. Over any
  sequence of calls, for any sessions and indices, a session stays in the store, the
  size of its \<open>uploadedChunks\<close> never decreases and no received index is lost.
\<close>

theorem markChunkUploaded_idempotent:
  "(uploadSessions st sid = Some s \<and> idx \<in> set (uploadedChunks s) \<longrightarrow>
      fst (markChunkUploaded st sid idx) = Some s
      \<and> uploadSessions (snd (markChunkUploaded st sid idx)) = uploadSessions st)
   \<and> (reupload_ready st fs req \<and> req_sessionId req = Some sid \<and> uploadSessions st sid = Some s \<longrightarrow>
      status (fst (post_upload_chunk st fs req)) = 200
      \<and> json_field (body (fst (post_upload_chunk st fs req))) ''success'' = Some (JBool True)
      \<and> json_field (body (fst (post_upload_chunk st fs req))) ''uploadedChunks''
           = Some (JNat (length (uploadedChunks s)))
      \<and> uploadSessions (fst (snd (post_upload_chunk st fs req))) = uploadSessions st)
   \<and> (uploadSessions st sid = Some s \<longrightarrow>
      (\<exists>s'. uploadSessions (markChunks st calls) sid = Some s'
           \<and> length (uploadedChunks s) \<le> length (uploadedChunks s')
           \<and> set (uploadedChunks s) \<subseteq> set (uploadedChunks s')))"
  using markChunkUploaded_known [of st sid s idx] reupload_succeeds [of st fs req sid s]
    markChunks_grows [of st sid s calls]
  by blast

lemma ex_reupload_ready:
  "reupload_ready (ex_store [2]) (ex_chunk_fs ''new'') (ex_request ''s1'' ''2'')"
  by (simp add: reupload_ready_def ex_store_def ex_session_def ex_chunk_fs_def ex_request_def
      parseInt_digits is_digit_def path_join_plain plain_name_def Let_def
      CHUNKS_DIR_def show_int_def
      show_nat.simps digit_char_def)

theorem markChunkUploaded_idempotent_witness:
  "uploadSessions (ex_store [2]) ''s1'' = Some (ex_session [2])
   \<and> 2 \<in> set (uploadedChunks (ex_session [2]))
   \<and> fst (markChunkUploaded (ex_store [2]) ''s1'' 2) = Some (ex_session [2])
   \<and> reupload_ready (ex_store [2]) (ex_chunk_fs ''new'') (ex_request ''s1'' ''2'')
   \<and> status (fst (post_upload_chunk (ex_store [2]) (ex_chunk_fs ''new'') (ex_request ''s1'' ''2''))) = 200
   \<and> json_field (body (fst (post_upload_chunk (ex_store [2]) (ex_chunk_fs ''new'')
         (ex_request ''s1'' ''2'')))) ''uploadedChunks'' = Some (JNat 1)
   \<and> (\<exists>s'. uploadSessions (markChunks (ex_store [2]) [(''s1'', 0), (''s1'', 2), (''s1'', 0)]) ''s1''
           = Some s' \<and> 1 \<le> length (uploadedChunks s'))"
proof -
  note t = markChunkUploaded_idempotent [of "ex_store [2]" "''s1''" "ex_session [2]" 2
      "ex_chunk_fs ''new''" "ex_request ''s1'' ''2''" "[(''s1'', 0), (''s1'', 2), (''s1'', 0)]"]
  have a: "uploadSessions (ex_store [2]) ''s1'' = Some (ex_session [2])"
    by (simp add: ex_store_def)
  have b: "2 \<in> set (uploadedChunks (ex_session [2]))"
    by (simp add: ex_session_def)
  have c: "req_sessionId (ex_request ''s1'' ''2'') = Some ''s1''"
    by (simp add: ex_request_def)
  have n: "length (uploadedChunks (ex_session [2])) = 1"
    by (simp add: ex_session_def)
  from t a b have 1: "fst (markChunkUploaded (ex_store [2]) ''s1'' 2) = Some (ex_session [2])"
    by blast
  from t a c ex_reupload_ready have 2:
    "status (fst (post_upload_chunk (ex_store [2]) (ex_chunk_fs ''new'') (ex_request ''s1'' ''2''))) = 200"
    "json_field (body (fst (post_upload_chunk (ex_store [2]) (ex_chunk_fs ''new'')
         (ex_request ''s1'' ''2'')))) ''uploadedChunks'' = Some (JNat (length (uploadedChunks (ex_session [2]))))"
    by blast+
  from t a obtain s' where 3:
    "uploadSessions (markChunks (ex_store [2]) [(''s1'', 0), (''s1'', 2), (''s1'', 0)]) ''s1'' = Some s'"
    "length (uploadedChunks (ex_session [2])) \<le> length (uploadedChunks s')"
    by blast
  from 3 n have 4: "\<exists>s'. uploadSessions (markChunks (ex_store [2]) [(''s1'', 0), (''s1'', 2), (''s1'', 0)]) ''s1''
           = Some s' \<and> 1 \<le> length (uploadedChunks s')"
    by auto
  from 2 n have 5: "json_field (body (fst (post_upload_chunk (ex_store [2]) (ex_chunk_fs ''new'')
         (ex_request ''s1'' ''2'')))) ''uploadedChunks'' = Some (JNat 1)"
    by simp
  show ?thesis using a b 1 ex_reupload_ready 2(1) 5 4 by blast
qed




section \<open>The order of the received indices\<close>

lemma strict_insert:
  "sorted_wrt (<) (xs :: int list) \<Longrightarrow> i \<notin> set xs \<Longrightarrow> sorted_wrt (<) (sort (xs @ [i]))"
  by (simp add: strict_sorted_iff)

lemma mark_keeps_ascending:
  assumes "chunks_ascending st"
  shows "chunks_ascending (snd (markChunkUploaded st sid idx))"
proof (cases "uploadSessions st sid")
  case None
  then show ?thesis using assms by (simp add: markChunkUploaded_absent)
next
  case (Some s)
  then have "sorted_wrt (<) (uploadedChunks s)" using assms by (simp add: chunks_ascending_def)
  then show ?thesis
    using assms Some unfolding chunks_ascending_def
    by (auto simp add: markChunkUploaded_sessions strict_insert simp del: sorted_wrt_append)
qed

lemma mark_returns_ascending:
  assumes "chunks_ascending st" "fst (markChunkUploaded st sid idx) = Some s'"
  shows "sorted_wrt (<) (uploadedChunks s')"
proof (cases "uploadSessions st sid")
  case None
  then show ?thesis using assms(2) by (simp add: markChunkUploaded_absent)
next
  case (Some s)
  then have "sorted_wrt (<) (uploadedChunks s)" using assms(1) by (simp add: chunks_ascending_def)
  then show ?thesis using assms(2) Some
    by (auto simp add: markChunkUploaded_session strict_insert split: if_splits
        simp del: sorted_wrt_append)
qed

lemma fold_session_updates:
  "sorted_wrt (<) (uploadedChunks s) \<Longrightarrow> keeps_ascending updates \<Longrightarrow>
   sorted_wrt (<) (uploadedChunks (foldl applySessionUpdate s updates))"
proof (induction updates arbitrary: s)
  case Nil
  then show ?case by simp
next
  case (Cons u us)
  from Cons.prems have "sorted_wrt (<) (uploadedChunks (applySessionUpdate s u))"
    by (cases u) (simp_all add: keeps_ascending_def)
  moreover from Cons.prems have "keeps_ascending us" by (simp add: keeps_ascending_def)
  ultimately show ?case using Cons.IH by simp
qed

lemma update_keeps_ascending:
  assumes "chunks_ascending st" "keeps_ascending updates"
  shows "chunks_ascending (snd (updateUploadSession st sid updates))"
  using assms unfolding chunks_ascending_def updateUploadSession_def
  by (auto simp add: Let_def fold_session_updates split: option.splits)

lemma create_keeps_ascending:
  assumes "chunks_ascending st"
  shows "chunks_ascending (snd (createUploadSession st newId now vid fname tsize csize))"
  using assms unfolding chunks_ascending_def createUploadSession_def
  by (auto simp add: Let_def)

lemma empty_ascending: "chunks_ascending emptyStorage"
  by (simp add: chunks_ascending_def emptyStorage_def)

lemma ex_store_ascending: "chunks_ascending (ex_store [0, 2])"
  by (simp add: chunks_ascending_def ex_store_def ex_session_def)

text \<open>
  Claim C10, as the code has it. Strictly ascending order of \<open>uploadedChunks\<close> in
  every session is an invariant of the store: it holds in the empty store, and
  \<open>createUploadSession\<close> and \<open>markChunkUploaded\<close> preserve it, as does
  \<open>updateUploadSession\<close> whenever its update descriptor carries no
  \<open>uploadedChunks\<close> array that is out of order (the routes pass the status only).
  Where it holds before a \<open>markChunkUploaded\<close> call, the session the call returns is
  in strictly ascending order.
\<close>

theorem uploadedChunks_ascending_invariant:
  assumes "chunks_ascending st"
  shows "chunks_ascending emptyStorage
       \<and> chunks_ascending (snd (createUploadSession st newId now vid fname tsize csize))
       \<and> chunks_ascending (snd (markChunkUploaded st sid idx))
       \<and> (\<forall>s'. fst (markChunkUploaded st sid idx) = Some s' \<longrightarrow> sorted_wrt (<) (uploadedChunks s'))
       \<and> (keeps_ascending updates \<longrightarrow> chunks_ascending (snd (updateUploadSession st sid updates)))"
  using assms
  by (simp add: empty_ascending create_keeps_ascending mark_keeps_ascending
      mark_returns_ascending update_keeps_ascending)

lemma ex_mark_middle:
  "fst (markChunkUploaded (ex_store [0, 2]) ''s1'' 1) = Some (ex_session [0, 1, 2])"
  by (simp add: markChunkUploaded_session ex_store_def ex_session_def)

theorem uploadedChunks_ascending_invariant_witness:
  "chunks_ascending (ex_store [0, 2])
   \<and> fst (markChunkUploaded (ex_store [0, 2]) ''s1'' 1) = Some (ex_session [0, 1, 2])
   \<and> sorted_wrt (<) (uploadedChunks (ex_session [0, 1, 2]))
   \<and> keeps_ascending [SetStatusS SessionCompleted]
   \<and> chunks_ascending (snd (updateUploadSession (ex_store [0, 2]) ''s1'' [SetStatusS SessionCompleted]))"
  using uploadedChunks_ascending_invariant [OF ex_store_ascending, of "''s1''" 0 "''v1''"
      "''clip.mp4''" 5000000 2097152 "''s1''" 1 "[SetStatusS SessionCompleted]"]
    ex_store_ascending ex_mark_middle
  by (simp add: keeps_ascending_def)

text \<open>
  Claim C10, as stated, fails. \<open>updateUploadSession\<close> writes an
  \<open>uploadedChunks\<close> array of its descriptor unchecked, and \<open>markChunkUploaded\<close>
  sorts only when it inserts: in the session \<open>s1\<close>, after an update to \<open>[2, 1]\<close>, a
  call for index 1 returns the session with \<open>[2, 1]\<close>.
\<close>

theorem uploadedChunks_ascending_counterexample:
  "uploadedChunks (the (fst (markChunkUploaded
       (snd (updateUploadSession (ex_store []) ''s1'' [SetUploadedChunks [2, 1]])) ''s1'' 1)))
     = [2, 1]
   \<and> \<not> sorted_wrt (<) (uploadedChunks (the (fst (markChunkUploaded
       (snd (updateUploadSession (ex_store []) ''s1'' [SetUploadedChunks [2, 1]])) ''s1'' 1))))"
  by (simp add: ex_store_def ex_session_def updateUploadSession_def markChunkUploaded_def Let_def)

section \<open>POST /api/upload/chunk: the validations\<close>

lemma unlink_quiet_other: "p \<noteq> tmp \<Longrightarrow> unlink_quiet fs tmp p = fs p"
  by (simp add: unlink_quiet_def unlink_def split: option.splits fnode.splits)

lemma chunk_empty_body:
  "body_empty fs req \<Longrightarrow> status (fst (post_upload_chunk st fs req)) = 400"
  by (auto simp add: post_upload_chunk_def body_empty_def respond_def Let_def
      split: option.splits)

lemma chunk_no_session:
  "fields_present req \<Longrightarrow> body_nonempty fs req \<Longrightarrow> \<not> session_exists st req \<Longrightarrow>
   status (fst (post_upload_chunk st fs req)) = 404"
  by (auto simp add: post_upload_chunk_def body_nonempty_def fields_present_def
      session_exists_def getUploadSession_def respond_def Let_def split: option.splits)

lemma chunk_bad_index:
  "fields_present req \<Longrightarrow> body_nonempty fs req \<Longrightarrow> session_exists st req \<Longrightarrow>
   \<not> index_valid st req \<Longrightarrow> status (fst (post_upload_chunk st fs req)) = 400"
  by (auto simp add: post_upload_chunk_def body_nonempty_def fields_present_def
      session_exists_def index_valid_def getUploadSession_def respond_def Let_def
      split: option.splits)

lemma chunk_rejected:
  "\<not> (body_nonempty fs req \<and> session_exists st req \<and> index_valid st req) \<Longrightarrow>
   status (fst (post_upload_chunk st fs req)) \<noteq> 200
   \<and> fst (snd (post_upload_chunk st fs req)) = st
   \<and> (\<forall>p. Some p \<noteq> req_file req \<longrightarrow> snd (snd (post_upload_chunk st fs req)) p = fs p)"
  by (auto simp add: post_upload_chunk_def body_nonempty_def fields_present_def
      session_exists_def index_valid_def getUploadSession_def respond_def Let_def
      upload_failed_def unlink_quiet_other split: option.splits if_splits)

text \<open>
  Claim C7. The handler of POST /api/upload/chunk runs the validations in the order
  body, session, index, and answers with the code of the first that fails: 400 when no
  body came or the body is empty; 404 when the fields are there, the body is not
  empty and the store has no session of that id; 400 when the session exists and
  \<open>parseInt\<close> of the index is \<open>NaN\<close> or outside \<open>[0, totalChunks)\<close>. A request
  that fails any of the three is not answered with 200, leaves the store as it is
  (nothing is marked received) and changes no path but that of its temporary file
  (nothing is promoted).
\<close>

theorem post_upload_chunk_validations:
  "(body_empty fs req \<longrightarrow> status (fst (post_upload_chunk st fs req)) = 400)
   \<and> (fields_present req \<and> body_nonempty fs req \<and> \<not> session_exists st req \<longrightarrow>
        status (fst (post_upload_chunk st fs req)) = 404)
   \<and> (fields_present req \<and> body_nonempty fs req \<and> session_exists st req
        \<and> \<not> index_valid st req \<longrightarrow>
        status (fst (post_upload_chunk st fs req)) = 400)
   \<and> (\<not> (body_nonempty fs req \<and> session_exists st req \<and> index_valid st req) \<longrightarrow>
        status (fst (post_upload_chunk st fs req)) \<noteq> 200
        \<and> fst (snd (post_upload_chunk st fs req)) = st
        \<and> (\<forall>p. Some p \<noteq> req_file req \<longrightarrow> snd (snd (post_upload_chunk st fs req)) p = fs p))"
  using chunk_empty_body [of fs req st] chunk_no_session [of req fs st]
    chunk_bad_index [of req fs st] chunk_rejected [of fs req st]
  by blast

lemma ex_empty_body: "body_empty (ex_body_fs []) (ex_request ''s1'' ''2'')"
  by (simp add: body_empty_def ex_body_fs_def ex_request_def)

lemma ex_unknown_session:
  "fields_present (ex_request ''zz'' ''2'') \<and> body_nonempty (ex_body_fs ''abc'') (ex_request ''zz'' ''2'')
   \<and> \<not> session_exists (ex_store [2]) (ex_request ''zz'' ''2'')"
  by (simp add: fields_present_def body_nonempty_def session_exists_def ex_body_fs_def
      ex_request_def ex_store_def)

lemma ex_index_out_of_range:
  "fields_present (ex_request ''s1'' ''3'') \<and> body_nonempty (ex_body_fs ''abc'') (ex_request ''s1'' ''3'')
   \<and> session_exists (ex_store [2]) (ex_request ''s1'' ''3'')
   \<and> \<not> index_valid (ex_store [2]) (ex_request ''s1'' ''3'')"
  by (simp add: fields_present_def body_nonempty_def session_exists_def index_valid_def
      ex_body_fs_def ex_request_def ex_store_def ex_session_def parseInt_digits is_digit_def)

theorem post_upload_chunk_validations_witness:
  "body_empty (ex_body_fs []) (ex_request ''s1'' ''2'')
   \<and> status (fst (post_upload_chunk (ex_store [2]) (ex_body_fs []) (ex_request ''s1'' ''2''))) = 400
   \<and> fields_present (ex_request ''zz'' ''2'')
   \<and> body_nonempty (ex_body_fs ''abc'') (ex_request ''zz'' ''2'')
   \<and> \<not> session_exists (ex_store [2]) (ex_request ''zz'' ''2'')
   \<and> status (fst (post_upload_chunk (ex_store [2]) (ex_body_fs ''abc'') (ex_request ''zz'' ''2''))) = 404
   \<and> session_exists (ex_store [2]) (ex_request ''s1'' ''3'')
   \<and> \<not> index_valid (ex_store [2]) (ex_request ''s1'' ''3'')
   \<and> status (fst (post_upload_chunk (ex_store [2]) (ex_body_fs ''abc'') (ex_request ''s1'' ''3''))) = 400
   \<and> fst (snd (post_upload_chunk (ex_store [2]) (ex_body_fs ''abc'') (ex_request ''s1'' ''3'')))
       = ex_store [2]"
proof -
  from post_upload_chunk_validations [of "ex_body_fs []" "ex_request ''s1'' ''2''" "ex_store [2]"]
    ex_empty_body
  have 1: "status (fst (post_upload_chunk (ex_store [2]) (ex_body_fs []) (ex_request ''s1'' ''2''))) = 400"
    by simp
  from post_upload_chunk_validations [of "ex_body_fs ''abc''" "ex_request ''zz'' ''2''" "ex_store [2]"]
    ex_unknown_session
  have 2: "status (fst (post_upload_chunk (ex_store [2]) (ex_body_fs ''abc'') (ex_request ''zz'' ''2''))) = 404"
    by simp
  from post_upload_chunk_validations [of "ex_body_fs ''abc''" "ex_request ''s1'' ''3''" "ex_store [2]"]
    ex_index_out_of_range
  have 3: "status (fst (post_upload_chunk (ex_store [2]) (ex_body_fs ''abc'') (ex_request ''s1'' ''3''))) = 400"
    "fst (snd (post_upload_chunk (ex_store [2]) (ex_body_fs ''abc'') (ex_request ''s1'' ''3'')))
       = ex_store [2]"
    by simp_all
  from 1 2 3 ex_empty_body ex_unknown_session ex_index_out_of_range show ?thesis
    by simp
qed

section \<open>POST /api/upload/complete: the incomplete upload\<close>

lemma complete_incomplete:
  assumes "uploadSessions st sid = Some session"
    "length (uploadedChunks session) \<noteq> totalChunks session"
  shows "post_upload_complete queue now jobIds st fs (Some sid) =
     complete_early (respond 400 [(''error'', JStr ''Upload incomplete''),
                              (''uploaded'', JNat (length (uploadedChunks session))),
                              (''total'', JNat (totalChunks session))]) st fs []"
  using assms by (simp add: post_upload_complete_def getUploadSession_def)

lemma complete_missing_files:
  assumes "uploadSessions st sid = Some session"
    "length (uploadedChunks session) = totalChunks session"
    "missing_chunks fs (path_join CHUNKS_DIR sid) (totalChunks session) \<noteq> []"
  shows "post_upload_complete queue now jobIds st fs (Some sid) =
     complete_early (respond 400 [(''error'', JStr ''Missing chunk files''),
         (''missingChunks'', JArr (map JNat (take 10
             (missing_chunks fs (path_join CHUNKS_DIR sid) (totalChunks session))))),
         (''totalMissing'', JNat (length
             (missing_chunks fs (path_join CHUNKS_DIR sid) (totalChunks session))))]) st fs []"
  using assms by (simp add: post_upload_complete_def getUploadSession_def Let_def)

text \<open>
  Claim C1, as the code has it. A POST /api/upload/complete for a session whose
  \<open>uploadedChunks\<close> has not the size \<open>totalChunks\<close> is answered with 400 and the
  body \<open>{error: "Upload incomplete", uploaded, total}\<close>: the two counts, and no list
  of missing indices; store and disk are left as they are. The list \<open>missingChunks\<close>
  (the first 10 of the indices below \<open>totalChunks\<close> whose chunk file is not on disk,
  with their number \<open>totalMissing\<close>) is the body of another 400, sent when the sizes
  agree and a chunk file is missing.
\<close>

theorem post_upload_complete_incomplete:
  "(uploadSessions st sid = Some session
      \<and> length (uploadedChunks session) \<noteq> totalChunks session \<longrightarrow>
      cr_response (post_upload_complete queue now jobIds st fs (Some sid)) =
        respond 400 [(''error'', JStr ''Upload incomplete''),
                     (''uploaded'', JNat (length (uploadedChunks session))),
                     (''total'', JNat (totalChunks session))]
      \<and> json_field (body (cr_response (post_upload_complete queue now jobIds st fs (Some sid))))
           ''missingChunks'' = None
      \<and> cr_store (post_upload_complete queue now jobIds st fs (Some sid)) = st
      \<and> cr_fs (post_upload_complete queue now jobIds st fs (Some sid)) = fs)
   \<and> (uploadSessions st sid = Some session
       \<and> length (uploadedChunks session) = totalChunks session
       \<and> missing_chunks fs (path_join CHUNKS_DIR sid) (totalChunks session) \<noteq> [] \<longrightarrow>
      status (cr_response (post_upload_complete queue now jobIds st fs (Some sid))) = 400
      \<and> json_field (body (cr_response (post_upload_complete queue now jobIds st fs (Some sid))))
           ''missingChunks''
          = Some (JArr (map JNat (take 10
               (missing_chunks fs (path_join CHUNKS_DIR sid) (totalChunks session)))))
      \<and> json_field (body (cr_response (post_upload_complete queue now jobIds st fs (Some sid))))
           ''totalMissing''
          = Some (JNat (length (missing_chunks fs (path_join CHUNKS_DIR sid) (totalChunks session))))
      \<and> cr_store (post_upload_complete queue now jobIds st fs (Some sid)) = st)"
  by (simp add: complete_incomplete complete_missing_files complete_early_def respond_def)

lemma ex_missing_files:
  "missing_chunks (ex_chunk_fs ''new'') (path_join CHUNKS_DIR ''s1'') 3 = [0, 1]"
proof -
  have u: "[0..<3] = [0, 1, 2::nat]" by (simp add: upt_rec)
  have d: "path_join CHUNKS_DIR ''s1'' = ''storage/chunks/s1''"
    by (simp add: path_join_CHUNKS_DIR plain_name_def)
  have s: "show_nat 0 = ''0''" "show_nat (Suc 0) = ''1''" "show_nat 2 = ''2''"
    by (simp_all add: show_nat.simps digit_char_def)
  have c: "path_join ''storage/chunks/s1'' ''chunk_0'' = ''storage/chunks/s1/chunk_0''"
    "path_join ''storage/chunks/s1'' ''chunk_1'' = ''storage/chunks/s1/chunk_1''"
    "path_join ''storage/chunks/s1'' ''chunk_2'' = ''storage/chunks/s1/chunk_2''"
    by (simp_all add: path_join_plain plain_name_def Let_def)
  show ?thesis
    unfolding missing_chunks_def u d
    by (simp add: s c ex_chunk_fs_def existsSync_def)
qed

theorem post_upload_complete_incomplete_witness:
  "uploadSessions (ex_store [0, 1]) ''s1'' = Some (ex_session [0, 1])
   \<and> length (uploadedChunks (ex_session [0, 1])) \<noteq> totalChunks (ex_session [0, 1])
   \<and> cr_response (post_upload_complete False 0 resolution_name (ex_store [0, 1]) Map.empty (Some ''s1''))
       = respond 400 [(''error'', JStr ''Upload incomplete''), (''uploaded'', JNat 2),
                      (''total'', JNat 3)]
   \<and> uploadSessions (ex_store [0, 1, 2]) ''s1'' = Some (ex_session [0, 1, 2])
   \<and> json_field (body (cr_response (post_upload_complete False 0 resolution_name
         (ex_store [0, 1, 2]) (ex_chunk_fs ''new'') (Some ''s1'')))) ''missingChunks''
       = Some (JArr [JNat 0, JNat 1])"
proof -
  have a: "uploadSessions (ex_store [0, 1]) ''s1'' = Some (ex_session [0, 1])"
    by (simp add: ex_store_def)
  have b: "length (uploadedChunks (ex_session [0, 1])) \<noteq> totalChunks (ex_session [0, 1])"
    by (simp add: ex_session_def)
  have c: "uploadSessions (ex_store [0, 1, 2]) ''s1'' = Some (ex_session [0, 1, 2])"
    by (simp add: ex_store_def)
  have d: "length (uploadedChunks (ex_session [0, 1, 2])) = totalChunks (ex_session [0, 1, 2])"
    "totalChunks (ex_session [0, 1, 2]) = 3"
    by (simp_all add: ex_session_def)
  have n: "JNat (length (uploadedChunks (ex_session [0, 1]))) = JNat 2"
    "totalChunks (ex_session [0, 1]) = 3"
    by (simp_all add: ex_session_def JNat_def)
  from post_upload_complete_incomplete [of "ex_store [0, 1]" "''s1''" "ex_session [0, 1]"
      False 0 resolution_name Map.empty] a b n
  have 1: "cr_response (post_upload_complete False 0 resolution_name (ex_store [0, 1]) Map.empty
             (Some ''s1''))
       = respond 400 [(''error'', JStr ''Upload incomplete''), (''uploaded'', JNat 2),
                      (''total'', JNat 3)]"
    by simp
  from post_upload_complete_incomplete [of "ex_store [0, 1, 2]" "''s1''" "ex_session [0, 1, 2]"
      False 0 resolution_name "ex_chunk_fs ''new''"] c d ex_missing_files
  have 2: "json_field (body (cr_response (post_upload_complete False 0 resolution_name
         (ex_store [0, 1, 2]) (ex_chunk_fs ''new'') (Some ''s1'')))) ''missingChunks''
       = Some (JArr [JNat 0, JNat 1])"
    by simp
  from a b 1 c 2 show ?thesis by blast
qed

text \<open>
  Claim C1, as stated, fails. With the indices 0 and 1 of 3 received, the response is
  400 with the two counts; its body has no key \<open>missingChunks\<close>, so the missing
  index 2 is not in it.
\<close>

theorem post_upload_complete_incomplete_counterexample:
  "status (cr_response (post_upload_complete False 0 resolution_name (ex_store [0, 1]) Map.empty
      (Some ''s1''))) = 400
   \<and> body (cr_response (post_upload_complete False 0 resolution_name (ex_store [0, 1]) Map.empty
      (Some ''s1'')))
      = JObj [(''error'', JStr ''Upload incomplete''), (''uploaded'', JNat 2), (''total'', JNat 3)]
   \<and> json_field (body (cr_response (post_upload_complete False 0 resolution_name (ex_store [0, 1])
        Map.empty (Some ''s1'')))) ''missingChunks'' = None"
proof -
  have "uploadSessions (ex_store [0, 1]) ''s1'' = Some (ex_session [0, 1])"
    by (simp add: ex_store_def)
  moreover have "length (uploadedChunks (ex_session [0, 1])) \<noteq> totalChunks (ex_session [0, 1])"
    by (simp add: ex_session_def)
  ultimately show ?thesis
    by (simp add: complete_incomplete complete_early_def respond_def ex_session_def JNat_def)
qed

section \<open>DELETE /api/videos/:id\<close>




lemma cleanupUploadFile_loop_find:
  "cleanupUploadFile_loop fs vid exts =
     (case find (existsSync fs) (map (upload_path vid) exts) of
        None \<Rightarrow> (False, fs)
      | Some p \<Rightarrow> (case unlink fs p of Some fs' \<Rightarrow> (True, fs') | None \<Rightarrow> (False, fs)))"
  by (induction exts) auto



lemma cleanupUploadFile_fs:
  "snd (cleanupUploadFile fs vid) =
     (case first_upload fs vid of
        None \<Rightarrow> fs
      | Some p \<Rightarrow> (case fs p of Some (FileNode c) \<Rightarrow> fs(p := None) | _ \<Rightarrow> fs))"
  by (simp add: cleanupUploadFile_def cleanupUploadFile_loop_find first_upload_def unlink_def
      split: option.splits fnode.splits)

lemma cleanupTranscodedFiles_fs:
  "snd (cleanupTranscodedFiles fs vid) p =
     (if existsSync fs (path_join TRANSCODED_DIR vid) \<and> under (path_join TRANSCODED_DIR vid) p
      then None else fs p)"
  by (auto simp add: cleanupTranscodedFiles_def Let_def rm_rf_def)


lemma delete_video_route_disk:
  "snd (snd (delete_video_route st fs vid))
   = snd (cleanupUploadFile (snd (cleanupTranscodedFiles fs vid)) vid)"
  by (simp add: delete_video_route_def Let_def split: prod.splits)









text \<open>
  An id that is not a single segment is resolved by \<open>path.join\<close>: for \<open>..\<close> the
  directory that is removed is \<open>storage\<close>, with the chunks of every session in it.
\<close>

lemma delete_parent_segment:
  "snd (snd (delete_video_route (ex_store []) ex_storage_fs ''..'')) ''storage'' = None"
  "snd (snd (delete_video_route (ex_store []) ex_storage_fs ''..'')) ''storage/chunks/s1/chunk_0''
     = None"
proof -
  let ?fs1 = "snd (cleanupTranscodedFiles ex_storage_fs ''..'')"
  have 1: "?fs1 = (\<lambda>p. None)"
    by (rule ext)
      (simp add: cleanupTranscodedFiles_fs ex_path_join_parent existsSync_def ex_storage_fs_def
        under_def)
  have "first_upload ?fs1 ''..'' = None"
    by (simp add: 1 first_upload_def upload_extensions_def existsSync_def)
  then have "snd (cleanupUploadFile ?fs1 ''..'') = ?fs1"
    by (simp add: cleanupUploadFile_fs)
  then show
    "snd (snd (delete_video_route (ex_store []) ex_storage_fs ''..'')) ''storage'' = None"
    "snd (snd (delete_video_route (ex_store []) ex_storage_fs ''..'')) ''storage/chunks/s1/chunk_0''
       = None"
    by (simp_all add: delete_video_route_disk 1)
qed

section \<open>Storage cleanup: the session directories\<close>

lemma removed_sessions_Cons:
  "removed_sessions now act expiry (e # es) =
      (if isDirectory e \<and> \<not> is_temp (name e) \<and> shouldClean now act expiry e
       then name e # removed_sessions now act expiry es else removed_sessions now act expiry es)"
  by (simp add: removed_sessions_def)

lemma cleanupOrphanedSessions_loop_fs:
  "snd (cleanupOrphanedSessions_loop now act expiry fs es) p =
     (if \<exists>sid \<in> set (removed_sessions now act expiry es). under (path_join CHUNKS_DIR sid) p
      then None else fs p)"
proof (induction es arbitrary: fs)
  case Nil
  then show ?case by (simp add: removed_sessions_def)
next
  case (Cons e es)
  show ?case
    by (simp add: Cons.IH removed_sessions_Cons rm_rf_def Let_def case_prod_beta)
qed

lemma cleanupOrphanedSessions_loop_count:
  "fst (cleanupOrphanedSessions_loop now act expiry fs es)
     = length (removed_sessions now act expiry es)"
proof (induction es arbitrary: fs)
  case Nil
  then show ?case by (simp add: removed_sessions_def)
next
  case (Cons e es)
  show ?case
    by (simp add: Cons.IH removed_sessions_Cons Let_def case_prod_beta)
qed

lemma cleanupOrphanedSessions_fs:
  "snd (cleanupOrphanedSessions now act expiry fs es) p =
     (if existsSync fs CHUNKS_DIR
         \<and> (\<exists>sid \<in> set (removed_sessions now act expiry es). under (path_join CHUNKS_DIR sid) p)
      then None else fs p)"
  by (simp add: cleanupOrphanedSessions_def cleanupOrphanedSessions_loop_fs)

lemma shouldClean_iff:
  "shouldClean now act expiry e \<longleftrightarrow>
     (case declared_expiry expiry (name e) of
        Some t \<Rightarrow> now > t
      | None \<Rightarrow> name e \<notin> act
                 \<and> (case mtimeMs e of None \<Rightarrow> True | Some t \<Rightarrow> now - t > 30 * 60 * 1000))"
  by (simp add: shouldClean_def declared_expiry_def ORPHAN_SESSION_MAX_AGE_MS_def
      split: option.splits)

lemma removed_sessions_iff:
  "sid \<in> set (removed_sessions now act expiry es) \<longleftrightarrow>
     (\<exists>e \<in> set es. name e = sid \<and> isDirectory e \<and> \<not> is_temp (name e)
        \<and> shouldClean now act expiry e)"
  by (auto simp add: removed_sessions_def)

lemma cleanup_touches_only:
  assumes "snd (cleanupOrphanedSessions now act expiry fs es) p \<noteq> fs p"
  shows "\<exists>e \<in> set es. isDirectory e \<and> \<not> is_temp (name e)
           \<and> under (path_join CHUNKS_DIR (name e)) p \<and> shouldClean now act expiry e"
proof -
  from assms obtain sid where "sid \<in> set (removed_sessions now act expiry es)"
      "under (path_join CHUNKS_DIR sid) p"
    by (auto simp add: cleanupOrphanedSessions_fs split: if_splits)
  then show ?thesis by (auto simp add: removed_sessions_iff)
qed

lemma cleanup_spares:
  assumes "\<forall>e \<in> set es. under (path_join CHUNKS_DIR (name e)) p \<longrightarrow>
           name e \<in> act
           \<and> (case declared_expiry expiry (name e) of Some t \<Rightarrow> now \<le> t | None \<Rightarrow> True)"
  shows "snd (cleanupOrphanedSessions now act expiry fs es) p = fs p"
proof (rule ccontr)
  assume "snd (cleanupOrphanedSessions now act expiry fs es) p \<noteq> fs p"
  from cleanup_touches_only [OF this] obtain e where
    e: "e \<in> set es" "under (path_join CHUNKS_DIR (name e)) p" "shouldClean now act expiry e"
    by blast
  with assms have "name e \<in> act"
    "case declared_expiry expiry (name e) of Some t \<Rightarrow> now \<le> t | None \<Rightarrow> True"
    by blast+
  with e(3) show False by (auto simp add: shouldClean_iff split: option.splits)
qed

text \<open>
  Claim C4, as the code has it. A run of \<open>cleanupOrphanedSessions\<close> changes a path
  only below a listed session directory (a directory whose name does not start with
  \<open>temp_\<close>) that it deletes, and it deletes one only when (a) the expiry map has an
  entry for the session and that expiry has passed, whether or not the session is in
  the Active set, or (b) the map has no entry for it, the session is not in the
  Active set, and the directory is older than 30 minutes or cannot be examined. The
  directory of a session in the Active set is kept as long as the map declares no
  expiry for it that has passed.
\<close>

theorem cleanupOrphanedSessions_deletes_only:
  "(snd (cleanupOrphanedSessions now act expiry fs es) p \<noteq> fs p \<longrightarrow>
      (\<exists>e \<in> set es. isDirectory e \<and> \<not> is_temp (name e)
         \<and> under (path_join CHUNKS_DIR (name e)) p
         \<and> (case declared_expiry expiry (name e) of
              Some t \<Rightarrow> now > t
            | None \<Rightarrow> name e \<notin> act
                       \<and> (case mtimeMs e of None \<Rightarrow> True
                            | Some t \<Rightarrow> now - t > 30 * 60 * 1000))))
   \<and> ((\<forall>e \<in> set es. under (path_join CHUNKS_DIR (name e)) p \<longrightarrow>
           name e \<in> act
           \<and> (case declared_expiry expiry (name e) of Some t \<Rightarrow> now \<le> t | None \<Rightarrow> True))
        \<longrightarrow> snd (cleanupOrphanedSessions now act expiry fs es) p = fs p)"
  using cleanup_touches_only [of now act expiry fs es p]
    cleanup_spares [where es=es and p=p and act=act and expiry=expiry and now=now and fs=fs]
  by (simp add: shouldClean_iff)

lemma ex_under_s1: "under (path_join CHUNKS_DIR ''s1'') ''storage/chunks/s1/chunk_0''"
  by (simp add: under_def path_join_plain plain_name_def Let_def CHUNKS_DIR_def)

lemma ex_orphan_removed:
  "snd (cleanupOrphanedSessions 90000000 {} None ex_gc_fs ex_gc_entries)
     ''storage/chunks/s1/chunk_0'' = None"
proof -
  have "removed_sessions 90000000 {} None ex_gc_entries = [''s1'']"
    by (simp add: removed_sessions_def ex_gc_entries_def shouldClean_def is_temp_def
        ORPHAN_SESSION_MAX_AGE_MS_def)
  moreover have "existsSync ex_gc_fs CHUNKS_DIR"
    by (simp add: ex_gc_fs_def existsSync_def CHUNKS_DIR_def)
  ultimately show ?thesis
    unfolding cleanupOrphanedSessions_fs using ex_under_s1 by simp
qed

theorem cleanupOrphanedSessions_deletes_only_witness:
  "snd (cleanupOrphanedSessions 90000000 {} None ex_gc_fs ex_gc_entries)
       ''storage/chunks/s1/chunk_0'' \<noteq> ex_gc_fs ''storage/chunks/s1/chunk_0''
   \<and> (\<exists>e \<in> set ex_gc_entries. isDirectory e \<and> name e \<notin> {}
         \<and> under (path_join CHUNKS_DIR (name e)) ''storage/chunks/s1/chunk_0''
         \<and> mtimeMs e = Some 86400000)
   \<and> snd (cleanupOrphanedSessions 1000 {''s1''} (Some [''s1'' \<mapsto> 86400000]) ex_gc_fs ex_gc_entries)
       ''storage/chunks/s1/chunk_0'' = ex_gc_fs ''storage/chunks/s1/chunk_0''"
proof -
  have f: "ex_gc_fs ''storage/chunks/s1/chunk_0'' = Some (FileNode ''abc'')"
    by (simp add: ex_gc_fs_def)
  have 1: "snd (cleanupOrphanedSessions 90000000 {} None ex_gc_fs ex_gc_entries)
       ''storage/chunks/s1/chunk_0'' \<noteq> ex_gc_fs ''storage/chunks/s1/chunk_0''"
    using ex_orphan_removed f by simp
  have 2: "\<exists>e \<in> set ex_gc_entries. isDirectory e \<and> name e \<notin> {}
         \<and> under (path_join CHUNKS_DIR (name e)) ''storage/chunks/s1/chunk_0''
         \<and> mtimeMs e = Some 86400000"
    using ex_under_s1 by (simp add: ex_gc_entries_def)
  have h: "\<forall>e \<in> set ex_gc_entries. under (path_join CHUNKS_DIR (name e)) ''storage/chunks/s1/chunk_0'' \<longrightarrow>
           name e \<in> {''s1''}
           \<and> (case declared_expiry (Some [''s1'' \<mapsto> 86400000]) (name e) of
                Some t \<Rightarrow> 1000 \<le> t | None \<Rightarrow> True)"
    by (simp add: ex_gc_entries_def declared_expiry_def)
  from cleanupOrphanedSessions_deletes_only [of 1000 "{''s1''}" "Some [''s1'' \<mapsto> 86400000]"
      ex_gc_fs ex_gc_entries "''storage/chunks/s1/chunk_0''"] h
  have 3: "snd (cleanupOrphanedSessions 1000 {''s1''} (Some [''s1'' \<mapsto> 86400000]) ex_gc_fs
             ex_gc_entries) ''storage/chunks/s1/chunk_0'' = ex_gc_fs ''storage/chunks/s1/chunk_0''"
    by blast
  from 1 2 3 show ?thesis by blast
qed

text \<open>
  Claim C4, as stated, fails. In the periodic run the Active set and the expiry map
  are built from the same sessions. One millisecond after the expiry of the Active
  session \<open>s1\<close>, its chunk directory is deleted.
\<close>

lemma ex_expired_removed:
  "removed_sessions 86400001 (getActiveSessionIds [ex_session [0]])
     (Some (getSessionExpiryMap [ex_session [0]])) ex_gc_entries = [''s1'']"
  by (simp add: removed_sessions_def ex_gc_entries_def shouldClean_def getSessionExpiryMap_def
      ex_session_def is_temp_def)

theorem cleanupOrphanedSessions_active_counterexample:
  "''s1'' \<in> getActiveSessionIds [ex_session [0]]
   \<and> ex_gc_fs ''storage/chunks/s1'' = Some DirNode
   \<and> snd (cleanupOrphanedSessions 86400001 (getActiveSessionIds [ex_session [0]])
        (Some (getSessionExpiryMap [ex_session [0]])) ex_gc_fs ex_gc_entries)
        ''storage/chunks/s1'' = None"
proof -
  have a: "''s1'' \<in> getActiveSessionIds [ex_session [0]]"
    by (simp add: getActiveSessionIds_def ex_session_def)
  have b: "ex_gc_fs ''storage/chunks/s1'' = Some DirNode" "existsSync ex_gc_fs CHUNKS_DIR"
    by (simp_all add: ex_gc_fs_def existsSync_def CHUNKS_DIR_def)
  have c: "under (path_join CHUNKS_DIR ''s1'') ''storage/chunks/s1''"
    by (simp add: under_def path_join_plain plain_name_def Let_def CHUNKS_DIR_def)
  have "snd (cleanupOrphanedSessions 86400001 (getActiveSessionIds [ex_session [0]])
        (Some (getSessionExpiryMap [ex_session [0]])) ex_gc_fs ex_gc_entries)
        ''storage/chunks/s1'' = None"
    unfolding cleanupOrphanedSessions_fs ex_expired_removed using b(2) c by simp
  with a b show ?thesis by simp
qed

section \<open>Encoder driver\<close>

lemma outputs_leave_pending:
  "list_all is_output chunks \<Longrightarrow> outcome d = None \<Longrightarrow>
   outcome (foldl (driver_step pl) d chunks) = None"
proof (induction chunks arbitrary: d)
  case Nil
  then show ?case by simp
next
  case (Cons c cs)
  from Cons.prems have "outcome (driver_step pl d c) = None"
    by (cases c) (auto simp add: Let_def split: option.splits prod.splits)
  with Cons show ?case by simp
qed

lemma driver_init_pending: "outcome driver_init = None"
  by (simp add: driver_init_def)

lemma driver_step_stdout:
  "match_out_time out = Some us \<Longrightarrow> duration d > 0 \<Longrightarrow>
   reported (driver_step pl d (StdoutData out)) =
     reported d @ [min (rat_of_nat (parse_digits us) / 1000000 / rat_of_nat (duration d) * 100) 99]"
  by (simp add: Let_def progress_percent_def)

lemma run_exit_zero:
  "list_all is_output chunks \<Longrightarrow>
   outcome (transcodeVideoFile outDir res (chunks @ [Close (Some 0)]))
     = Some (Resolved (playlist_path outDir res))
   \<and> last (reported (transcodeVideoFile outDir res (chunks @ [Close (Some 0)]))) = 100"
  using outputs_leave_pending [of chunks driver_init "playlist_path outDir res"]
  by (simp add: transcodeVideoFile_def driver_init_pending settle_def)

lemma run_exit_nonzero:
  "list_all is_output chunks \<Longrightarrow> code \<noteq> Some 0 \<Longrightarrow>
   outcome (transcodeVideoFile outDir res (chunks @ [Close code]))
     = Some (Rejected (ExitedWithCode code))"
  using outputs_leave_pending [of chunks driver_init "playlist_path outDir res"]
  by (simp add: transcodeVideoFile_def driver_init_pending settle_def)

lemma run_spawn_error:
  "list_all is_output chunks \<Longrightarrow>
   outcome (transcodeVideoFile outDir res (chunks @ [SpawnError e]))
     = Some (Rejected (SpawnFailure e))"
  using outputs_leave_pending [of chunks driver_init "playlist_path outDir res"]
  by (simp add: transcodeVideoFile_def driver_init_pending settle_def)

text \<open>
  Claim C5. When a chunk of standard output matches \<open>out_time_ms=<digits>\<close> and a
  positive duration is known, the driver reports
  \<open>min (seconds / duration * 100) 99\<close>, where \<open>seconds\<close> is the number read
  divided by 1 000 000 (percentages are exact rationals). When the encoder, after any
  output, closes with exit code 0, the last report is 100 and the promise is resolved
  with the playlist path; when it closes with another code it is rejected with that
  code, and on a spawn error with that error.
\<close>

theorem transcodeVideoFile_progress_and_outcome:
  "(match_out_time out = Some us \<and> duration d > 0 \<longrightarrow>
      reported (driver_step pl d (StdoutData out)) =
        reported d @ [min (rat_of_nat (parse_digits us) / 1000000 / rat_of_nat (duration d) * 100) 99])
   \<and> (list_all is_output chunks \<longrightarrow>
      outcome (transcodeVideoFile outDir res (chunks @ [Close (Some 0)]))
        = Some (Resolved (playlist_path outDir res))
      \<and> last (reported (transcodeVideoFile outDir res (chunks @ [Close (Some 0)]))) = 100)
   \<and> (list_all is_output chunks \<and> code \<noteq> Some 0 \<longrightarrow>
      outcome (transcodeVideoFile outDir res (chunks @ [Close code]))
        = Some (Rejected (ExitedWithCode code)))
   \<and> (list_all is_output chunks \<longrightarrow>
      outcome (transcodeVideoFile outDir res (chunks @ [SpawnError e]))
        = Some (Rejected (SpawnFailure e)))"
  using driver_step_stdout [of out us d pl] run_exit_zero [of chunks outDir res]
    run_exit_nonzero [of chunks code outDir res] run_spawn_error [of chunks outDir res e]
  by simp

lemma ex_match_out_time: "match_out_time ''out_time_ms=5000000'' = Some ''5000000''"
  by (simp add: out_time_at_def is_digit_def)

lemma ex_match_duration:
  "match_duration ''Duration: 00:00:10.00'' = Some (''00'', ''00'', ''10'')"
  by (simp add: duration_at_def is_digit_def)

lemma ex_parse_digits:
  "parse_digits ''5000000'' = 5000000" "parse_digits ''00'' = 0" "parse_digits ''10'' = 10"
  by (simp_all add: parse_digits_def parseInt_digits is_digit_def)

lemma ex_chunks_output: "list_all is_output ex_chunks"
  by (simp add: ex_chunks_def)

lemma ex_reported:
  "reported (transcodeVideoFile ''out'' R360P (ex_chunks @ [Close (Some 0)])) = [50, 100]"
  by (simp add: ex_chunks_def transcodeVideoFile_def driver_init_def ex_match_out_time
      ex_match_duration ex_parse_digits progress_percent_def settle_def
      del: match_out_time.simps match_duration.simps)

theorem transcodeVideoFile_progress_and_outcome_witness:
  "match_out_time ''out_time_ms=5000000'' = Some ''5000000''
   \<and> reported (driver_step ''p'' (driver_init\<lparr>duration := 10\<rparr>) (StdoutData ''out_time_ms=5000000''))
       = [50]
   \<and> list_all is_output ex_chunks
   \<and> outcome (transcodeVideoFile ''out'' R360P (ex_chunks @ [Close (Some 0)]))
       = Some (Resolved ''out/360p/playlist.m3u8'')
   \<and> reported (transcodeVideoFile ''out'' R360P (ex_chunks @ [Close (Some 0)])) = [50, 100]
   \<and> outcome (transcodeVideoFile ''out'' R360P (ex_chunks @ [Close (Some 1)]))
       = Some (Rejected (ExitedWithCode (Some 1)))
   \<and> outcome (transcodeVideoFile ''out'' R360P (ex_chunks @ [SpawnError ''ENOENT'']))
       = Some (Rejected (SpawnFailure ''ENOENT''))"
proof -
  note t = transcodeVideoFile_progress_and_outcome [of "''out_time_ms=5000000''" "''5000000''"
      "driver_init\<lparr>duration := 10\<rparr>" "''p''" ex_chunks "''out''" R360P "Some 1" "''ENOENT''"]
  have d: "duration (driver_init\<lparr>duration := 10\<rparr>) > 0" "reported (driver_init\<lparr>duration := 10\<rparr>) = []"
    by (simp_all add: driver_init_def)
  have c: "Some (1::int) \<noteq> Some 0" by simp
  have p: "playlist_path ''out'' R360P = ''out/360p/playlist.m3u8''"
    by (simp add: playlist_path_def path_join_plain plain_name_def Let_def)
  from t ex_match_out_time d ex_parse_digits(1)
  have 1: "reported (driver_step ''p'' (driver_init\<lparr>duration := 10\<rparr>)
             (StdoutData ''out_time_ms=5000000'')) = [50]"
    by simp
  from t ex_chunks_output c p
  have 2: "outcome (transcodeVideoFile ''out'' R360P (ex_chunks @ [Close (Some 0)]))
       = Some (Resolved ''out/360p/playlist.m3u8'')"
    "outcome (transcodeVideoFile ''out'' R360P (ex_chunks @ [Close (Some 1)]))
       = Some (Rejected (ExitedWithCode (Some 1)))"
    "outcome (transcodeVideoFile ''out'' R360P (ex_chunks @ [SpawnError ''ENOENT'']))
       = Some (Rejected (SpawnFailure ''ENOENT''))"
    by simp_all
  from ex_match_out_time 1 ex_chunks_output 2 ex_reported show ?thesis by simp
qed

section \<open>Event bus\<close>

lemma emitEvent_delivered:
  "delivered (emitEvent ct pr b t vid d now)
     = delivered b @ gateway_listener (sockets b) (mk_event t vid d now)"
  by (simp add: emitEvent_def Let_def case_prod_beta)

lemma emitEvent_publish_outcome:
  "delivered (emitEvent ct True b t vid d now) = delivered (emitEvent ct False b t vid d now)
   \<and> published (emitEvent ct True b t vid d now) = published (emitEvent ct False b t vid d now)
   \<and> redis (emitEvent ct True b t vid d now) = redis (emitEvent ct False b t vid d now)"
  by (simp add: emitEvent_def Let_def case_prod_beta)

lemma emitEvent_no_broker:
  "\<not> fst (getRedisConnection ct (redis b)) \<Longrightarrow>
   published (emitEvent ct pr b t vid d now) = published b
   \<and> swallowed (emitEvent ct pr b t vid d now) = swallowed b"
  by (simp add: emitEvent_def Let_def case_prod_beta)

lemma gateway_listener_global:
  "s \<in> set socks \<Longrightarrow>
   \<lparr> to_socket = socket_id s, channel = ''global-event'', payload = ev \<rparr>
     \<in> set (gateway_listener socks ev)"
  by (auto simp add: gateway_listener_def)

lemma gateway_listener_video:
  "s \<in> set socks \<Longrightarrow> (''video:'' @ ev_videoId ev) \<in> set (rooms s) \<Longrightarrow>
   \<lparr> to_socket = socket_id s, channel = ''video-event'', payload = ev \<rparr>
     \<in> set (gateway_listener socks ev)"
  by (auto simp add: gateway_listener_def)

text \<open>
  Claim C8. Whatever the state of the Redis connection, \<open>emitEvent\<close> hands the event
  to the in-process listener before it returns: the deliveries of the call are those
  of the gateway listener, every connected socket gets the event as
  \<open>global-event\<close> and every socket subscribed to the video as \<open>video-event\<close>.
  The call always returns; whether the promise of \<open>publish\<close> is rejected changes
  neither the deliveries nor what was published (the rejection is swallowed), and
  without a connection nothing is published and nothing is rejected.
\<close>

theorem emitEvent_delivers_locally:
  "delivered (emitEvent ct pr b t vid d now)
     = delivered b @ gateway_listener (sockets b) (mk_event t vid d now)
   \<and> (\<forall>s \<in> set (sockets b).
        \<lparr> to_socket = socket_id s, channel = ''global-event'', payload = mk_event t vid d now \<rparr>
          \<in> set (delivered (emitEvent ct pr b t vid d now)))
   \<and> (\<forall>s \<in> set (sockets b). (''video:'' @ vid) \<in> set (rooms s) \<longrightarrow>
        \<lparr> to_socket = socket_id s, channel = ''video-event'', payload = mk_event t vid d now \<rparr>
          \<in> set (delivered (emitEvent ct pr b t vid d now)))
   \<and> delivered (emitEvent ct True b t vid d now) = delivered (emitEvent ct False b t vid d now)
   \<and> published (emitEvent ct True b t vid d now) = published (emitEvent ct False b t vid d now)
   \<and> (\<not> fst (getRedisConnection ct (redis b)) \<longrightarrow>
        published (emitEvent ct pr b t vid d now) = published b
        \<and> swallowed (emitEvent ct pr b t vid d now) = swallowed b)"
proof -
  have v: "ev_videoId (mk_event t vid d now) = vid" by (simp add: mk_event_def)
  show ?thesis
    using emitEvent_publish_outcome [of ct b t vid d now] emitEvent_no_broker [of ct b pr t vid d now]
      gateway_listener_video [of _ "sockets b" "mk_event t vid d now"]
    by (simp add: emitEvent_delivered gateway_listener_global v)
qed

lemma ex_no_connection: "\<not> fst (getRedisConnection False (redis (ex_bus True)))"
  by (simp add: getRedisConnection_def ex_bus_def)

theorem emitEvent_delivers_locally_witness:
  "\<lparr> socket_id = ''a'', rooms = [''a'', ''video:v1''] \<rparr> \<in> set (sockets (ex_bus True))
   \<and> (''video:'' @ ''v1'') \<in> set (rooms \<lparr> socket_id = ''a'', rooms = [''a'', ''video:v1''] \<rparr>)
   \<and> \<lparr> to_socket = ''a'', channel = ''video-event'',
        payload = mk_event EV_UPLOAD_COMPLETED ''v1'' [] 5 \<rparr>
        \<in> set (delivered (emitEvent False False (ex_bus True) EV_UPLOAD_COMPLETED ''v1'' [] 5))
   \<and> \<lparr> to_socket = ''a'', channel = ''global-event'',
        payload = mk_event EV_UPLOAD_COMPLETED ''v1'' [] 5 \<rparr>
        \<in> set (delivered (emitEvent False False (ex_bus True) EV_UPLOAD_COMPLETED ''v1'' [] 5))
   \<and> \<not> fst (getRedisConnection False (redis (ex_bus True)))
   \<and> published (emitEvent False False (ex_bus True) EV_UPLOAD_COMPLETED ''v1'' [] 5) = []"
proof -
  note t = emitEvent_delivers_locally [of False False "ex_bus True" EV_UPLOAD_COMPLETED "''v1''"
      "[]" 5]
  have a: "\<lparr> socket_id = ''a'', rooms = [''a'', ''video:v1''] \<rparr> \<in> set (sockets (ex_bus True))"
    by (simp add: ex_bus_def)
  have r: "(''video:'' @ ''v1'') \<in> set (rooms \<lparr> socket_id = ''a'', rooms = [''a'', ''video:v1''] \<rparr>)"
    by simp
  have p: "published (ex_bus True) = []" by (simp add: ex_bus_def)
  from t a r have 1:
    "\<lparr> to_socket = socket_id \<lparr> socket_id = ''a'', rooms = [''a'', ''video:v1''] \<rparr>,
       channel = ''video-event'', payload = mk_event EV_UPLOAD_COMPLETED ''v1'' [] 5 \<rparr>
        \<in> set (delivered (emitEvent False False (ex_bus True) EV_UPLOAD_COMPLETED ''v1'' [] 5))"
    "\<lparr> to_socket = socket_id \<lparr> socket_id = ''a'', rooms = [''a'', ''video:v1''] \<rparr>,
       channel = ''global-event'', payload = mk_event EV_UPLOAD_COMPLETED ''v1'' [] 5 \<rparr>
        \<in> set (delivered (emitEvent False False (ex_bus True) EV_UPLOAD_COMPLETED ''v1'' [] 5))"
    by blast+
  from t ex_no_connection p have 2:
    "published (emitEvent False False (ex_bus True) EV_UPLOAD_COMPLETED ''v1'' [] 5) = []"
    by simp
  from a r 1 ex_no_connection 2 show ?thesis by simp
qed

section \<open>In-process worker: the final state of a video and its jobs\<close>

lemma updateVideo_maps:
  "videos st i = Some v \<Longrightarrow>
   videos (snd (updateVideo st i us)) = (videos st)(i \<mapsto> foldl applyVideoUpdate v us)"
  "transcodingJobs (snd (updateVideo st i us)) = transcodingJobs st"
  by (simp_all add: updateVideo_def Let_def split: option.splits)

lemma updateJob_maps:
  "videos (snd (updateTranscodingJob st i us)) = videos st"
  "transcodingJobs st i = Some j \<Longrightarrow>
   transcodingJobs (snd (updateTranscodingJob st i us)) = (transcodingJobs st)(i \<mapsto> foldl applyJobUpdate j us)"
  by (simp_all add: updateTranscodingJob_def Let_def split: option.splits)

text \<open>The effect of each step on the status, progress and URLs of a video and its jobs.\<close>

lemma job_jd [simp]:
  "jd_jobId (job_data vid inp outDir jobIds r) = jobIds r"
  "jd_videoId (job_data vid inp outDir jobIds r) = vid"
  "jd_resolution (job_data vid inp outDir jobIds r) = r"
  by (simp_all add: job_data_def)

lemma jstatus_upd:
  "inj jobIds \<Longrightarrow> transcodingJobs st' = (transcodingJobs st)(jobIds r \<mapsto> j') \<Longrightarrow>
   jstatus st' jobIds r' = (if r' = r then Some (status_j j') else jstatus st jobIds r')"
  by (auto simp add: jstatus_def inj_eq)

lemma exec_Processing:
  assumes "inj jobIds" "transcodingJobs st (jobIds r) = Some j"
  shows "videos (fst (exec_action (job_data vid inp outDir jobIds r) now Processing st)) = videos st"
    "jstatus (fst (exec_action (job_data vid inp outDir jobIds r) now Processing st)) jobIds r'
       = (if r' = r then Some JobProcessing else jstatus st jobIds r')"
  using assms
  by (simp_all add: updateJob_maps jstatus_upd [where j'="foldl applyJobUpdate j [SetStatusJ JobProcessing, SetStartedAt now]"])

lemma job_failed_effect:
  assumes "inj jobIds" "transcodingJobs st (jobIds r) = Some j" "videos st vid = Some v"
  shows "videos (fst (job_failed (job_data vid inp outDir jobIds r) now ma mb st)) vid
           = Some (v\<lparr>status_v := FAILED, errorMessage_v := Some ma\<rparr>)"
    "jstatus (fst (job_failed (job_data vid inp outDir jobIds r) now ma mb st)) jobIds r'
       = (if r' = r then Some JobFailed else jstatus st jobIds r')"
  using assms
  by (simp_all add: job_failed_def Let_def updateJob_maps updateVideo_maps
      jstatus_upd [where j'="foldl applyJobUpdate j [SetStatusJ JobFailed, SetCompletedAtJ now]"])

lemma exec_Progress:
  assumes "inj jobIds" "transcodingJobs st (jobIds r) = Some j" "videos st vid = Some v"
  shows "videos (fst (exec_action (job_data vid inp outDir jobIds r) now (Progress p) st)) vid
           = Some (v\<lparr>transcodingProgress := Some ((progress_map v)(r \<mapsto> p))\<rparr>)"
    "jstatus (fst (exec_action (job_data vid inp outDir jobIds r) now (Progress p) st)) jobIds r'
       = jstatus st jobIds r'"
  using assms
  by (auto simp add: Let_def getVideo_def updateJob_maps updateVideo_maps jstatus_def inj_eq)

lemma exec_Completed:
  assumes "inj jobIds" "transcodingJobs st (jobIds r) = Some j" "videos st vid = Some v"
  shows "videos (fst (exec_action (job_data vid inp outDir jobIds r) now Completed st)) vid
           = Some (v\<lparr>hlsUrls := Some ((url_map v)(r \<mapsto> hls_url (job_data vid inp outDir jobIds r))),
                     transcodingProgress := Some ((progress_map v)(r \<mapsto> 100)),
                     status_v := (if list_all (\<lambda>q. ((progress_map v)(r \<mapsto> 100)) q = Some 100) allResolutions
                                  then COMPLETED else TRANSCODING),
                     completedAt_v := (if list_all (\<lambda>q. ((progress_map v)(r \<mapsto> 100)) q = Some 100) allResolutions
                                  then Some now else None)\<rparr>)"
    "jstatus (fst (exec_action (job_data vid inp outDir jobIds r) now Completed st)) jobIds r'
       = (if r' = r then Some JobCompleted else jstatus st jobIds r')"
  using assms
  by (simp_all add: Let_def getVideo_def updateJob_maps updateVideo_maps
      jstatus_upd [where j'="foldl applyJobUpdate j [SetStatusJ JobCompleted, SetProgress 100,
         SetOutputPath (hls_url (job_data vid inp outDir jobIds r)), SetCompletedAtJ now]"])


lemma all_resolutions: "list_all P allResolutions = (\<forall>r. P r)"
proof
  assume a: "list_all P allResolutions"
  show "\<forall>r. P r"
  proof
    fix r show "P r" using a by (cases r) (simp_all add: allResolutions_def)
  qed
next
  assume "\<forall>r. P r"
  then show "list_all P allResolutions" by (simp add: allResolutions_def)
qed

lemma abs_Processing:
  assumes "inj jobIds" "jstatus st jobIds r \<noteq> None" "videos st vid \<noteq> None"
    and st'_def: "st' = fst (exec_action (job_data vid inp outDir jobIds r) now Processing st)"
  shows "videos st' vid \<noteq> None" "vstatus st' vid = vstatus st vid"
    "vprogress st' vid q = vprogress st vid q" "vurl st' vid q = vurl st vid q"
    "jstatus st' jobIds r' = (if r' = r then Some JobProcessing else jstatus st jobIds r')"
proof -
  from assms(2) obtain j where j: "transcodingJobs st (jobIds r) = Some j"
    by (auto simp add: jstatus_def)
  note e = exec_Processing [OF assms(1) j, of vid inp outDir now]
  show "videos st' vid \<noteq> None" "vstatus st' vid = vstatus st vid"
    "vprogress st' vid q = vprogress st vid q" "vurl st' vid q = vurl st vid q"
    using assms(3) e(1) by (simp_all add: st'_def vstatus_def vprogress_def vurl_def)
  show "jstatus st' jobIds r' = (if r' = r then Some JobProcessing else jstatus st jobIds r')"
    using e(2) by (simp add: st'_def)
qed

lemma abs_failed:
  assumes "inj jobIds" "jstatus st jobIds r \<noteq> None" "videos st vid \<noteq> None"
    and st'_def: "st' = fst (job_failed (job_data vid inp outDir jobIds r) now ma mb st)"
  shows "videos st' vid \<noteq> None" "vstatus st' vid = Some FAILED"
    "vprogress st' vid q = vprogress st vid q" "vurl st' vid q = vurl st vid q"
    "jstatus st' jobIds r' = (if r' = r then Some JobFailed else jstatus st jobIds r')"
proof -
  from assms(2) obtain j where j: "transcodingJobs st (jobIds r) = Some j"
    by (auto simp add: jstatus_def)
  from assms(3) obtain v where v: "videos st vid = Some v" by auto
  note e = job_failed_effect [OF assms(1) j v, of inp outDir now ma mb]
  show "videos st' vid \<noteq> None" "vstatus st' vid = Some FAILED"
    "vprogress st' vid q = vprogress st vid q" "vurl st' vid q = vurl st vid q"
    using v e(1) by (simp_all add: st'_def vstatus_def vprogress_def vurl_def progress_map_def url_map_def)
  show "jstatus st' jobIds r' = (if r' = r then Some JobFailed else jstatus st jobIds r')"
    using e(2) by (simp add: st'_def)
qed

lemma abs_Progress:
  assumes "inj jobIds" "jstatus st jobIds r \<noteq> None" "videos st vid \<noteq> None"
    and st'_def: "st' = fst (exec_action (job_data vid inp outDir jobIds r) now (Progress p) st)"
  shows "videos st' vid \<noteq> None" "vstatus st' vid = vstatus st vid"
    "vprogress st' vid q = (if q = r then Some p else vprogress st vid q)" "vurl st' vid q = vurl st vid q"
    "jstatus st' jobIds r' = jstatus st jobIds r'"
proof -
  from assms(2) obtain j where j: "transcodingJobs st (jobIds r) = Some j"
    by (auto simp add: jstatus_def)
  from assms(3) obtain v where v: "videos st vid = Some v" by auto
  note e = exec_Progress [OF assms(1) j v, of inp outDir now p]
  show "videos st' vid \<noteq> None" "vstatus st' vid = vstatus st vid"
    "vprogress st' vid q = (if q = r then Some p else vprogress st vid q)" "vurl st' vid q = vurl st vid q"
    using v e(1) by (simp_all add: st'_def vstatus_def vprogress_def vurl_def progress_map_def url_map_def)
  show "jstatus st' jobIds r' = jstatus st jobIds r'"
    using e(2) by (simp add: st'_def)
qed

lemma abs_Completed:
  assumes "inj jobIds" "jstatus st jobIds r \<noteq> None" "videos st vid \<noteq> None"
    and st'_def: "st' = fst (exec_action (job_data vid inp outDir jobIds r) now Completed st)"
  shows "videos st' vid \<noteq> None"
    "vstatus st' vid = Some (if (\<forall>q. q \<noteq> r \<longrightarrow> vprogress st vid q = Some 100) then COMPLETED else TRANSCODING)"
    "vprogress st' vid q = (if q = r then Some 100 else vprogress st vid q)"
    "vurl st' vid q = (if q = r then Some (hls_url (job_data vid inp outDir jobIds r)) else vurl st vid q)"
    "jstatus st' jobIds r' = (if r' = r then Some JobCompleted else jstatus st jobIds r')"
proof -
  from assms(2) obtain j where j: "transcodingJobs st (jobIds r) = Some j"
    by (auto simp add: jstatus_def)
  from assms(3) obtain v where v: "videos st vid = Some v" by auto
  note e = exec_Completed [OF assms(1) j v, of inp outDir now]
  have a: "list_all (\<lambda>q. ((progress_map v)(r \<mapsto> 100)) q = Some 100) allResolutions
      = (\<forall>q. q \<noteq> r \<longrightarrow> vprogress st vid q = Some 100)"
    using v by (auto simp add: all_resolutions vprogress_def)
  show "videos st' vid \<noteq> None"
    "vprogress st' vid q = (if q = r then Some 100 else vprogress st vid q)"
    "vurl st' vid q = (if q = r then Some (hls_url (job_data vid inp outDir jobIds r)) else vurl st vid q)"
    using v e(1) by (simp_all add: st'_def vprogress_def vurl_def progress_map_def url_map_def)
  show "vstatus st' vid = Some (if (\<forall>q. q \<noteq> r \<longrightarrow> vprogress st vid q = Some 100) then COMPLETED else TRANSCODING)"
    using v e(1) a by (simp add: st'_def vstatus_def)
  show "jstatus st' jobIds r' = (if r' = r then Some JobCompleted else jstatus st jobIds r')"
    using e(2) by (simp add: st'_def)
qed


declare exec_action.simps [simp del]

lemma job_inv_job:
  "job_inv vid jobIds c \<Longrightarrow>
   job_ok (jstatus (store c) jobIds r) (remaining c r) (vurl (store c) vid r) (vprogress (store c) vid r)"
  by (simp add: job_inv_def)

lemma job_inv_video: "job_inv vid jobIds c \<Longrightarrow> videos (store c) vid \<noteq> None"
  by (simp add: job_inv_def)

lemma job_inv_global:
  "job_inv vid jobIds c \<Longrightarrow>
     (vstatus (store c) vid = Some COMPLETED \<longrightarrow> (\<forall>r. vprogress (store c) vid r = Some 100))
      \<and> ((\<forall>r. jstatus (store c) jobIds r = Some JobCompleted)
           \<longrightarrow> vstatus (store c) vid = Some COMPLETED)
      \<and> (vstatus (store c) vid = Some FAILED
           \<longrightarrow> (\<exists>r. jstatus (store c) jobIds r = Some JobFailed))"
  by (simp add: job_inv_def)

lemma job_inv_exists: "job_inv vid jobIds c \<Longrightarrow> jstatus (store c) jobIds r \<noteq> None"
  using job_inv_job [of vid jobIds c r] by (cases "jstatus (store c) jobIds r") auto

text \<open>The status of a job that has a step left, with what the invariant says of it.\<close>

lemma job_ok_head:
  assumes "job_ok s (a # rest) url prog"
  shows "(s = Some JobPending \<and> a = Processing \<and> tail_ok rest \<and> url = None \<and> prog \<noteq> Some 100)
       \<or> (s = Some JobProcessing \<and> tail_ok (a # rest) \<and> url = None
            \<and> (prog = Some 100 \<longrightarrow> a # rest = [Completed]))"
proof (cases s)
  case None
  with assms show ?thesis by simp
next
  case (Some x)
  with assms show ?thesis by (cases x) auto
qed

lemma inv_Processing:
  assumes i: "inj jobIds" and inv: "job_inv vid jobIds c"
    and rem: "remaining c r = Processing # rest"
  shows "job_inv vid jobIds
           \<lparr> store = fst (exec_action (job_data vid inp outDir jobIds r) now Processing (store c)),
             emitted = E, remaining = (remaining c)(r := rest) \<rparr>"
proof -
  let ?st' = "fst (exec_action (job_data vid inp outDir jobIds r) now Processing (store c))"
  note a = abs_Processing [where r=r and inp=inp and outDir=outDir and now=now
      and st="store c" and vid=vid and jobIds=jobIds,
      OF i job_inv_exists [OF inv] job_inv_video [OF inv] refl]
  from job_ok_head [of "jstatus (store c) jobIds r" Processing rest] job_inv_job [OF inv, of r] rem
  have r: "jstatus (store c) jobIds r = Some JobPending" "tail_ok rest"
    "vurl (store c) vid r = None" "vprogress (store c) vid r \<noteq> Some 100"
    by auto
  note g = job_inv_global [OF inv]
  have 1: "job_ok (jstatus ?st' jobIds q) (((remaining c)(r := rest)) q) (vurl ?st' vid q)
             (vprogress ?st' vid q)" for q
  proof (cases "q = r")
    case True
    then show ?thesis using r by (simp add: a)
  next
    case False
    then show ?thesis using job_inv_job [OF inv, of q] by (simp add: a)
  qed
  have 2: "(\<forall>q. jstatus ?st' jobIds q = Some JobCompleted) \<longrightarrow> vstatus ?st' vid = Some COMPLETED"
    using a(5) [of r] by auto
  have 3: "vstatus ?st' vid = Some FAILED \<longrightarrow> (\<exists>q. jstatus ?st' jobIds q = Some JobFailed)"
  proof
    assume "vstatus ?st' vid = Some FAILED"
    with g obtain q where q: "jstatus (store c) jobIds q = Some JobFailed" by (auto simp add: a)
    with r have "q \<noteq> r" by auto
    with q show "\<exists>q. jstatus ?st' jobIds q = Some JobFailed" by (auto simp add: a)
  qed
  show ?thesis
    unfolding job_inv_def using 1 2 3 g a(1) by (simp add: a(2,3))
qed


lemma inv_failed:
  assumes i: "inj jobIds" and inv: "job_inv vid jobIds c"
    and rem: "remaining c r = a # rest" and a: "a = NoFfmpeg \<or> a = Failed m"
  shows "job_inv vid jobIds
           \<lparr> store = fst (exec_action (job_data vid inp outDir jobIds r) now a (store c)),
             emitted = E, remaining = (remaining c)(r := rest) \<rparr>"
proof -
  let ?st' = "fst (exec_action (job_data vid inp outDir jobIds r) now a (store c))"
  from a obtain ma mb where
    e: "?st' = fst (job_failed (job_data vid inp outDir jobIds r) now ma mb (store c))"
    by (auto simp add: exec_action.simps)
  note f = abs_failed [where r=r and inp=inp and outDir=outDir and now=now
      and st="store c" and vid=vid and jobIds=jobIds and ma=ma and mb=mb,
      OF i job_inv_exists [OF inv] job_inv_video [OF inv] e]
  from job_ok_head [of "jstatus (store c) jobIds r" a rest] job_inv_job [OF inv, of r] rem a
  have r: "rest = []" "vurl (store c) vid r = None" "vprogress (store c) vid r \<noteq> Some 100"
    by auto
  have 1: "job_ok (jstatus ?st' jobIds q) (((remaining c)(r := rest)) q) (vurl ?st' vid q)
             (vprogress ?st' vid q)" for q
  proof (cases "q = r")
    case True
    then show ?thesis using r by (simp add: f)
  next
    case False
    then show ?thesis using job_inv_job [OF inv, of q] by (simp add: f)
  qed
  have 2: "(\<forall>q. jstatus ?st' jobIds q = Some JobCompleted) \<longrightarrow> vstatus ?st' vid = Some COMPLETED"
    using f(5) [of r] by auto
  have 3: "vstatus ?st' vid = Some FAILED \<longrightarrow> (\<exists>q. jstatus ?st' jobIds q = Some JobFailed)"
    using f(5) [of r] by auto
  show ?thesis
    unfolding job_inv_def using 1 2 3 f(1) by (simp add: f(2))
qed

lemma inv_Progress:
  assumes i: "inj jobIds" and inv: "job_inv vid jobIds c"
    and rem: "remaining c r = Progress p # rest"
  shows "job_inv vid jobIds
           \<lparr> store = fst (exec_action (job_data vid inp outDir jobIds r) now (Progress p) (store c)),
             emitted = E, remaining = (remaining c)(r := rest) \<rparr>"
proof -
  let ?st' = "fst (exec_action (job_data vid inp outDir jobIds r) now (Progress p) (store c))"
  note a = abs_Progress [where r=r and inp=inp and outDir=outDir and now=now and p=p
      and st="store c" and vid=vid and jobIds=jobIds,
      OF i job_inv_exists [OF inv] job_inv_video [OF inv] refl]
  from job_ok_head [of "jstatus (store c) jobIds r" "Progress p" rest] job_inv_job [OF inv, of r] rem
  have r: "jstatus (store c) jobIds r = Some JobProcessing"
    "if p = 100 then rest = [Completed] else tail_ok rest"
    "vurl (store c) vid r = None" "vprogress (store c) vid r \<noteq> Some 100"
    by auto
  note g = job_inv_global [OF inv]
  have 1: "job_ok (jstatus ?st' jobIds q) (((remaining c)(r := rest)) q) (vurl ?st' vid q)
             (vprogress ?st' vid q)" for q
  proof (cases "q = r")
    case True
    then show ?thesis using r by (auto simp add: a split: if_splits)
  next
    case False
    then show ?thesis using job_inv_job [OF inv, of q] by (simp add: a)
  qed
  have n: "vstatus (store c) vid \<noteq> Some COMPLETED" using g r(4) by auto
  have 2: "(\<forall>q. jstatus ?st' jobIds q = Some JobCompleted) \<longrightarrow> vstatus ?st' vid = Some COMPLETED"
    using r(1) by (auto simp add: a)
  have 3: "vstatus ?st' vid = Some FAILED \<longrightarrow> (\<exists>q. jstatus ?st' jobIds q = Some JobFailed)"
    using g by (simp add: a)
  show ?thesis
    unfolding job_inv_def using 1 2 3 n a(1) by (simp add: a(2))
qed

lemma inv_Completed:
  assumes i: "inj jobIds" and inv: "job_inv vid jobIds c"
    and rem: "remaining c r = Completed # rest"
  shows "job_inv vid jobIds
           \<lparr> store = fst (exec_action (job_data vid inp outDir jobIds r) now Completed (store c)),
             emitted = E, remaining = (remaining c)(r := rest) \<rparr>"
proof -
  let ?st' = "fst (exec_action (job_data vid inp outDir jobIds r) now Completed (store c))"
  note a = abs_Completed [where r=r and inp=inp and outDir=outDir and now=now
      and st="store c" and vid=vid and jobIds=jobIds,
      OF i job_inv_exists [OF inv] job_inv_video [OF inv] refl]
  from job_ok_head [of "jstatus (store c) jobIds r" Completed rest] job_inv_job [OF inv, of r] rem
  have r: "rest = []" by auto
  have 1: "job_ok (jstatus ?st' jobIds q) (((remaining c)(r := rest)) q) (vurl ?st' vid q)
             (vprogress ?st' vid q)" for q
  proof (cases "q = r")
    case True
    then show ?thesis using r by (simp add: a)
  next
    case False
    then show ?thesis using job_inv_job [OF inv, of q] by (simp add: a)
  qed
  have 0: "vstatus ?st' vid = Some COMPLETED \<longrightarrow> (\<forall>q. vprogress ?st' vid q = Some 100)"
    by (auto simp add: a split: if_splits)
  have 2: "(\<forall>q. jstatus ?st' jobIds q = Some JobCompleted) \<longrightarrow> vstatus ?st' vid = Some COMPLETED"
  proof
    assume all: "\<forall>q. jstatus ?st' jobIds q = Some JobCompleted"
    have "vprogress (store c) vid q = Some 100" if "q \<noteq> r" for q
    proof -
      from all have "jstatus ?st' jobIds q = Some JobCompleted" by blast
      with that have "jstatus (store c) jobIds q = Some JobCompleted" by (simp add: a)
      with job_inv_job [OF inv, of q] show ?thesis by simp
    qed
    then show "vstatus ?st' vid = Some COMPLETED" by (simp add: a)
  qed
  have 3: "vstatus ?st' vid = Some FAILED \<longrightarrow> (\<exists>q. jstatus ?st' jobIds q = Some JobFailed)"
    by (simp add: a)
  show ?thesis
    unfolding job_inv_def using 0 1 2 3 a(1) by simp
qed

lemma inv_step:
  assumes i: "inj jobIds" and inv: "job_inv vid jobIds c"
    and rem: "remaining c r = a # rest"
  shows "job_inv vid jobIds
           \<lparr> store = fst (exec_action (job_data vid inp outDir jobIds r) now a (store c)),
             emitted = E, remaining = (remaining c)(r := rest) \<rparr>"
proof (cases a)
  case Processing
  with inv_Processing [OF i inv] rem show ?thesis by simp
next
  case NoFfmpeg
  with inv_failed [OF i inv rem] show ?thesis by simp
next
  case (Progress p)
  with inv_Progress [OF i inv] rem show ?thesis by simp
next
  case Completed
  with inv_Completed [OF i inv] rem show ?thesis by simp
next
  case (Failed m)
  with inv_failed [OF i inv rem] show ?thesis by simp
qed

lemma inv_run:
  "inj jobIds \<Longrightarrow> job_inv vid jobIds c \<Longrightarrow>
   job_inv vid jobIds (run_schedule (job_data vid inp outDir jobIds) sched c)"
proof (induction sched arbitrary: c)
  case Nil
  then show ?case by simp
next
  case (Cons x sched)
  obtain r now where x: "x = (r, now)" by (cases x)
  show ?case
  proof (cases "remaining c r")
    case Nil
    with Cons x show ?thesis by simp
  next
    case (Cons a rest)
    from inv_step [OF Cons.prems(1) Cons.prems(2) Cons]
    have "job_inv vid jobIds
           \<lparr> store = fst (exec_action (job_data vid inp outDir jobIds r) now a (store c)),
             emitted = emitted c @ snd (exec_action (job_data vid inp outDir jobIds r) now a (store c)),
             remaining = (remaining c)(r := rest) \<rparr>" .
    from Cons.IH [OF Cons.prems(1) this] Cons x show ?thesis
      by (simp add: case_prod_beta)
  qed
qed


text \<open>The steps of a call: \<open>Processing\<close>, then progress below 100, then one ending.\<close>

lemma tail_ok_progress:
  "100 \<notin> set ps \<Longrightarrow> tail_ok (map Progress ps @ t) = tail_ok t"
  by (induction ps) auto

lemma progress_steps_subset: "set (progress_steps l ps) \<subseteq> set ps"
  by (induction ps arbitrary: l) auto

lemma progress_steps_last: "progress_steps l (ps @ [100]) = progress_steps l ps @ [100]"
  by (induction ps arbitrary: l) auto

lemma outputs_below_100:
  "list_all is_output cs \<Longrightarrow> 100 \<notin> set (reported d) \<Longrightarrow>
   100 \<notin> set (reported (foldl (driver_step pl) d cs))"
proof (induction cs arbitrary: d)
  case Nil
  then show ?case by simp
next
  case (Cons c cs)
  from Cons.prems have "100 \<notin> set (reported (driver_step pl d c))"
    by (cases c) (auto simp add: Let_def progress_percent_def min_def split: option.splits prod.splits)
  with Cons show ?case by simp
qed

lemma filter_outputs: "list_all is_output (filter is_output cs)"
  by (induction cs) auto

lemma job_actions_tail:
  "\<exists>t. job_actions jd run = Processing # t \<and> tail_ok t"
proof (cases run)
  case FfmpegMissing
  then show ?thesis by (simp add: job_actions_def)
next
  case (Encoder chunks e)
  let ?pl = "playlist_path (jd_outputDir jd) (jd_resolution jd)"
  let ?d0 = "foldl (driver_step ?pl) driver_init (filter is_output chunks)"
  have p: "outcome ?d0 = None"
    using outputs_leave_pending [OF filter_outputs driver_init_pending] .
  have b: "100 \<notin> set (reported ?d0)"
    using outputs_below_100 [where cs = "filter is_output chunks" and d = driver_init and pl = ?pl]
      filter_outputs [of chunks]
    by (simp add: driver_init_def)
  have ps: "100 \<notin> set (progress_steps 0 (reported ?d0))"
    using b progress_steps_subset by blast
  show ?thesis
  proof (cases "e = Exited (Some 0)")
    case True
    then show ?thesis
      using Encoder p ps
      by (simp add: job_actions_def transcodeVideoFile_def settle_def Let_def
          progress_steps_last tail_ok_progress)
  next
    case False
    then show ?thesis
      using Encoder p ps
      by (cases e) (auto simp add: job_actions_def transcodeVideoFile_def settle_def Let_def
          tail_ok_progress)
  qed
qed

lemma inv_start:
  assumes "jobs_pending st vid jobIds"
  shows "job_inv vid jobIds (start_config st (job_data vid inp outDir jobIds) runs)"
proof -
  from assms obtain v where v: "videos st vid = Some v" "hlsUrls v = None"
    "transcodingProgress v = Some [R360P \<mapsto> 0, R720P \<mapsto> 0, R1080P \<mapsto> 0]"
    "status_v v = QUEUED \<or> status_v v = TRANSCODING"
    by (auto simp add: jobs_pending_def split: option.splits)
  have j: "jstatus st jobIds r = Some JobPending" for r
  proof -
    from assms have "case transcodingJobs st (jobIds r) of None \<Rightarrow> False
      | Some j \<Rightarrow> status_j j = JobPending \<and> resolution j = r \<and> videoId_j j = vid"
      by (simp add: jobs_pending_def all_resolutions)
    then show ?thesis
      by (cases "transcodingJobs st (jobIds r)") (simp_all add: jstatus_def)
  qed
  have u: "vurl st vid r = None" for r using v by (simp add: vurl_def url_map_def)
  have pr: "vprogress st vid r \<noteq> Some 100" for r
    using v by (cases r) (simp_all add: vprogress_def progress_map_def)
  have s: "vstatus st vid \<noteq> Some COMPLETED" "vstatus st vid \<noteq> Some FAILED"
    using v by (auto simp add: vstatus_def)
  have 1: "job_ok (jstatus st jobIds r) (job_actions (job_data vid inp outDir jobIds r) (runs r))
             (vurl st vid r) (vprogress st vid r)" for r
    using job_actions_tail [of "job_data vid inp outDir jobIds r" "runs r"] j [of r] u [of r] pr [of r]
    by auto
  show ?thesis
    unfolding job_inv_def start_config_def using v(1) 1 s j by simp
qed

lemma done_job:
  assumes "job_ok s [] url prog"
  shows "(s = Some JobCompleted \<and> url \<noteq> None \<and> prog = Some 100)
       \<or> (s = Some JobFailed \<and> url = None \<and> prog \<noteq> Some 100)"
proof (cases s)
  case None
  with assms show ?thesis by simp
next
  case (Some x)
  with assms show ?thesis by (cases x) auto
qed

lemma inv_final:
  assumes inv: "job_inv vid jobIds c" and d: "all_done c"
  shows "videos (store c) vid \<noteq> None
       \<and> (vstatus (store c) vid = Some COMPLETED \<longleftrightarrow> (\<forall>r. jstatus (store c) jobIds r = Some JobCompleted))
       \<and> (vstatus (store c) vid = Some FAILED \<longrightarrow> (\<exists>r. jstatus (store c) jobIds r = Some JobFailed))
       \<and> (\<forall>r. vurl (store c) vid r \<noteq> None \<longleftrightarrow> jstatus (store c) jobIds r = Some JobCompleted)"
proof -
  from d have e: "remaining c r = []" for r by (simp add: all_done_def all_resolutions)
  have k: "(jstatus (store c) jobIds r = Some JobCompleted \<and> vurl (store c) vid r \<noteq> None
              \<and> vprogress (store c) vid r = Some 100)
       \<or> (jstatus (store c) jobIds r = Some JobFailed \<and> vurl (store c) vid r = None
              \<and> vprogress (store c) vid r \<noteq> Some 100)" for r
    using done_job [of "jstatus (store c) jobIds r" "vurl (store c) vid r" "vprogress (store c) vid r"]
      job_inv_job [OF inv, of r] e [of r] by simp
  note g = job_inv_global [OF inv]
  have 1: "vstatus (store c) vid = Some COMPLETED \<longleftrightarrow> (\<forall>r. jstatus (store c) jobIds r = Some JobCompleted)"
  proof
    assume "vstatus (store c) vid = Some COMPLETED"
    with g have "\<forall>r. vprogress (store c) vid r = Some 100" by blast
    with k show "\<forall>r. jstatus (store c) jobIds r = Some JobCompleted" by blast
  next
    assume "\<forall>r. jstatus (store c) jobIds r = Some JobCompleted"
    with g show "vstatus (store c) vid = Some COMPLETED" by blast
  qed
  have 3: "vurl (store c) vid r \<noteq> None \<longleftrightarrow> jstatus (store c) jobIds r = Some JobCompleted" for r
    using k [of r] by auto
  from job_inv_video [OF inv] 1 g 3 show ?thesis by blast
qed

text \<open>
  Claim C2. Take a video as POST /api/upload/complete leaves it: progress 0 for each of
  the three resolutions, no playback URL, and a pending job of its own for each
  resolution. Let the three calls of \<open>simulateTranscoding\<close> run to their ends, each
  handler as one step (the start of a job, a progress report of the encoder, the
  completion after exit code 0, the failure after any other ending or without an
  encoder), the steps of the three calls interleaved in any order and the encoders
  producing any output and any ending. Then the video is still in the store, its status
  is \<open>COMPLETED\<close> exactly when the three jobs are completed, its status is \<open>FAILED\<close>
  only if some job is failed, and it has a playback URL for a resolution exactly when
  the job of that resolution is completed.
\<close>

theorem simulateTranscoding_final_state:
  assumes "jobs_pending st vid jobIds"
    and "all_done (run_schedule (job_data vid inp outDir jobIds) sched
            (start_config st (job_data vid inp outDir jobIds) runs))"
  shows "videos (store (run_schedule (job_data vid inp outDir jobIds) sched
            (start_config st (job_data vid inp outDir jobIds) runs))) vid \<noteq> None
       \<and> (vstatus (store (run_schedule (job_data vid inp outDir jobIds) sched
            (start_config st (job_data vid inp outDir jobIds) runs))) vid = Some COMPLETED
          \<longleftrightarrow> (\<forall>r. jstatus (store (run_schedule (job_data vid inp outDir jobIds) sched
            (start_config st (job_data vid inp outDir jobIds) runs))) jobIds r = Some JobCompleted))
       \<and> (vstatus (store (run_schedule (job_data vid inp outDir jobIds) sched
            (start_config st (job_data vid inp outDir jobIds) runs))) vid = Some FAILED
          \<longrightarrow> (\<exists>r. jstatus (store (run_schedule (job_data vid inp outDir jobIds) sched
            (start_config st (job_data vid inp outDir jobIds) runs))) jobIds r = Some JobFailed))
       \<and> (\<forall>r. vurl (store (run_schedule (job_data vid inp outDir jobIds) sched
            (start_config st (job_data vid inp outDir jobIds) runs))) vid r \<noteq> None
          \<longleftrightarrow> jstatus (store (run_schedule (job_data vid inp outDir jobIds) sched
            (start_config st (job_data vid inp outDir jobIds) runs))) jobIds r = Some JobCompleted)"
proof -
  from assms(1) have i: "inj jobIds" by (simp add: jobs_pending_def)
  from inv_final [OF inv_run [OF i inv_start [OF assms(1)]] assms(2)] show ?thesis .
qed


lemma remaining_run_schedule:
  "remaining (run_schedule jobs sched c)
   = foldl (\<lambda>rem (r, now). rem(r := tl (rem r))) (remaining c) sched"
proof (induction sched arbitrary: c)
  case Nil
  then show ?case by simp
next
  case (Cons x sched)
  obtain r now where x: "x = (r, now)" by (cases x)
  let ?f = "\<lambda>rem (r, now). rem(r := tl (rem r))"
  have h: "?f (remaining c) x = (remaining c)(r := tl (remaining c r))"
    using x by simp
  show ?case
  proof (cases "remaining c r")
    case Nil
    then have "(remaining c)(r := tl (remaining c r)) = remaining c" by auto
    with h have "?f (remaining c) x = remaining c" by (simp only:)
    then have 1: "foldl ?f (remaining c) (x # sched) = foldl ?f (remaining c) sched"
      by (simp only: foldl_Cons)
    have 2: "run_schedule jobs (x # sched) c = run_schedule jobs sched c"
      using Nil x by simp
    show ?thesis by (simp only: 1 2 Cons.IH)
  next
    case (Cons a rest)
    define c' where "c' = \<lparr> store = fst (exec_action (jobs r) now a (store c)),
      emitted = emitted c @ snd (exec_action (jobs r) now a (store c)),
      remaining = (remaining c)(r := rest) \<rparr>"
    have 2: "run_schedule jobs (x # sched) c = run_schedule jobs sched c'"
      using Cons x by (simp add: c'_def case_prod_beta)
    have "?f (remaining c) x = remaining c'"
      using h Cons by (simp add: c'_def)
    then have 1: "foldl ?f (remaining c) (x # sched) = foldl ?f (remaining c') sched"
      by (simp only: foldl_Cons)
    show ?thesis by (simp only: 1 2 Cons.IH)
  qed
qed

lemma inj_resolution_name: "inj resolution_name"
proof (rule injI)
  fix x y assume "resolution_name x = resolution_name y"
  then show "x = y" by (cases x; cases y) simp_all
qed

lemma ex_jobs_pending: "jobs_pending ex_queued_store ''v1'' resolution_name"
  by (simp add: jobs_pending_def inj_resolution_name ex_queued_store_def ex_video_def
      allResolutions_def ex_job_def)

lemma ex_outcome:
  "outcome (transcodeVideoFile ''out'' R360P (ex_chunks @ [Close (Some 0)]))
   = Some (Resolved ''out/360p/playlist.m3u8'')"
  by (simp add: ex_chunks_def transcodeVideoFile_def driver_init_def ex_match_out_time
      ex_match_duration ex_parse_digits progress_percent_def settle_def playlist_path_def
      path_join_plain plain_name_def Let_def
      del: match_out_time.simps match_duration.simps)

lemma ex_job_actions:
  "job_actions (job_data ''v1'' ''in'' ''out'' resolution_name R360P) (ex_runs R360P)
     = [Processing, Progress 50, Progress 100, Completed]"
  "job_actions (job_data ''v1'' ''in'' ''out'' resolution_name R720P) (ex_runs R720P)
     = [Processing, Failed ''FFmpeg exited with code 1'']"
  "job_actions (job_data ''v1'' ''in'' ''out'' resolution_name R1080P) (ex_runs R1080P)
     = [Processing, NoFfmpeg]"
proof -
  have f: "filter is_output ex_chunks = ex_chunks" by (simp add: ex_chunks_def)
  show "job_actions (job_data ''v1'' ''in'' ''out'' resolution_name R360P) (ex_runs R360P)
     = [Processing, Progress 50, Progress 100, Completed]"
    by (simp add: job_actions_def job_data_def f ex_reported ex_outcome)
  show "job_actions (job_data ''v1'' ''in'' ''out'' resolution_name R720P) (ex_runs R720P)
     = [Processing, Failed ''FFmpeg exited with code 1'']"
    by (simp add: job_actions_def job_data_def transcodeVideoFile_def driver_init_def settle_def
        show_int_def show_nat.simps digit_char_def)
  show "job_actions (job_data ''v1'' ''in'' ''out'' resolution_name R1080P) (ex_runs R1080P)
     = [Processing, NoFfmpeg]"
    by (simp add: job_actions_def)
qed

lemma ex_all_done:
  "all_done (run_schedule (job_data ''v1'' ''in'' ''out'' resolution_name) ex_schedule
     (start_config ex_queued_store (job_data ''v1'' ''in'' ''out'' resolution_name) ex_runs))"
  unfolding all_done_def remaining_run_schedule
  by (simp add: allResolutions_def start_config_def ex_schedule_def ex_job_actions
      del: ex_runs.simps)

theorem simulateTranscoding_final_state_witness:
  "jobs_pending ex_queued_store ''v1'' resolution_name
   \<and> all_done (run_schedule (job_data ''v1'' ''in'' ''out'' resolution_name) ex_schedule
       (start_config ex_queued_store (job_data ''v1'' ''in'' ''out'' resolution_name) ex_runs))
   \<and> (vstatus (store (run_schedule (job_data ''v1'' ''in'' ''out'' resolution_name) ex_schedule
          (start_config ex_queued_store (job_data ''v1'' ''in'' ''out'' resolution_name) ex_runs)))
          ''v1'' = Some COMPLETED)
      = (\<forall>r. jstatus (store (run_schedule (job_data ''v1'' ''in'' ''out'' resolution_name) ex_schedule
          (start_config ex_queued_store (job_data ''v1'' ''in'' ''out'' resolution_name) ex_runs)))
          resolution_name r = Some JobCompleted)
   \<and> (\<forall>r. (vurl (store (run_schedule (job_data ''v1'' ''in'' ''out'' resolution_name) ex_schedule
          (start_config ex_queued_store (job_data ''v1'' ''in'' ''out'' resolution_name) ex_runs)))
          ''v1'' r \<noteq> None)
      = (jstatus (store (run_schedule (job_data ''v1'' ''in'' ''out'' resolution_name) ex_schedule
          (start_config ex_queued_store (job_data ''v1'' ''in'' ''out'' resolution_name) ex_runs)))
          resolution_name r = Some JobCompleted))"
  using simulateTranscoding_final_state [OF ex_jobs_pending ex_all_done] ex_jobs_pending ex_all_done
  by blast

end
